theory Spec2Isabelle
  imports Main "HOL-Library.Word"
begin

section \<open>Errors and outcomes\<close>

text \<open>
  A Go call either returns, panics with a message, or never returns: it waits on a channel
  that nobody serves, or the program ends while it waits.  Every function of the session
  engine that can panic or wait is modelled with this result type.
\<close>

datatype 'a outcome = Returns 'a | Panics string | Blocks

text \<open>
  An error of the socket library, described by exactly what \<open>classifyWSError\<close> looks at:
  the close code when it is a \<open>*websocket.CloseError\<close>, the sentinels \<open>errors.Is\<close> finds
  in its chain, whether \<open>errors.As\<close> finds a \<open>net.Error\<close>, and the text of \<open>Error()\<close>.
\<close>

record conn_error =
  close_code :: "int option"
  is_net_ErrClosed :: bool
  is_io_ErrClosedPipe :: bool
  is_io_EOF :: bool
  as_net_Error :: bool
  err_text :: string

text \<open>The sentinel errors of package \<open>ws\<close>.\<close>

datatype ws_sentinel =
    ErrWriteTimeout | ErrWriteFailed | ErrWSNormalClosure | ErrWSAbnormalClosure
  | ErrWSNetworkIssue | ErrWSReadInterrupted | ErrWSPayloadCorrupted
  | ErrWSUnexpectedEOF | ErrWSInternalError

text \<open>
  The error values that travel through the engine.  \<open>Wrapped s e\<close> is
  \<open>fmt.Errorf("%w: %v", s, e)\<close>; the remaining constructors are the errors the sessions
  build themselves or receive from the context and the JSON encoder.
\<close>

datatype error =
    Raw conn_error
  | Wrapped ws_sentinel conn_error
  | ErrDuplicateSubscription
  | ErrMaxCountSubscribes
  | DeadlineExceeded
  | Canceled
  | MarshalError string
  | CodeMsgError int string
  | InvalidSuccessPayload string
  | AuthFailed string
  | PingFailed string

section \<open>The settlement primitive (package wsutil)\<close>

datatype PromiseErrSource = FromUnknown | FromServer | FromContext

fun String :: "PromiseErrSource \<Rightarrow> string" where
  "String FromServer = ''server''"
| "String FromContext = ''context''"
| "String FromUnknown = ''unknown''"

record PromiseError =
  Source :: PromiseErrSource
  Err :: error

text \<open>
  \<open>resCh\<close> and \<open>errCh\<close> are channels with one buffer slot: \<open>None\<close> is the empty
  buffer.  \<open>once\<close> is the \<open>sync.Once\<close>: \<open>True\<close> after its first \<open>Do\<close>.
\<close>

record 'm promiseImp =
  matchFn :: "'m \<Rightarrow> bool \<times> error option"
  resCh :: "'m option"
  errCh :: "error option"
  once :: bool

definition NewPromise :: "('m \<Rightarrow> bool \<times> error option) \<Rightarrow> 'm promiseImp" where
  "NewPromise f = \<lparr>matchFn = f, resCh = None, errCh = None, once = False\<rparr>"

definition Match :: "'m promiseImp \<Rightarrow> 'm \<Rightarrow> bool \<times> error option" where
  "Match p msg = matchFn p msg"

text \<open>
  \<open>once.Do\<close> runs the send only on its first use.  The buffer slot is free then (see
  \<open>promise_inv\<close> below), so the send does not wait.
\<close>

definition Resolve :: "'m promiseImp \<Rightarrow> 'm \<Rightarrow> 'm promiseImp" where
  "Resolve p msg = (if once p then p else p\<lparr>resCh := Some msg, once := True\<rparr>)"

definition Reject :: "'m promiseImp \<Rightarrow> error \<Rightarrow> 'm promiseImp" where
  "Reject p err = (if once p then p else p\<lparr>errCh := Some err, once := True\<rparr>)"

text \<open>
  \<open>Await\<close> is a \<open>select\<close> over three cases.  The context is given by the state of
  \<open>ctx.Done()\<close> when the select runs: \<open>None\<close> while it is open, \<open>Some e\<close> with
  \<open>e = ctx.Err()\<close> once it is closed.  \<open>await_ready\<close> lists the cases that can proceed, in
  the order of the source, each with the value returned and the promise after the receive.
  Go picks one of the ready cases at random: \<open>pick\<close> is that choice.  With no ready case
  the select waits, which is the result \<open>None\<close>.
\<close>

definition await_ready ::
    "'m promiseImp \<Rightarrow> error option \<Rightarrow> ((PromiseError + 'm) \<times> 'm promiseImp) list" where
  "await_ready p ctx =
     (case resCh p of Some msg \<Rightarrow> [(Inr msg, p\<lparr>resCh := None\<rparr>)] | None \<Rightarrow> []) @
     (case errCh p of
        Some err \<Rightarrow> [(Inl \<lparr>Source = FromServer, Err = err\<rparr>, p\<lparr>errCh := None\<rparr>)]
      | None \<Rightarrow> []) @
     (case ctx of Some e \<Rightarrow> [(Inl \<lparr>Source = FromContext, Err = e\<rparr>, p)] | None \<Rightarrow> [])"

definition Await ::
    "'m promiseImp \<Rightarrow> error option \<Rightarrow> nat \<Rightarrow> ((PromiseError + 'm) \<times> 'm promiseImp) option" where
  "Await p ctx pick =
     (let ready = await_ready p ctx
      in if ready = [] then None else Some (ready ! (pick mod length ready)))"

text \<open>A settlement call, and a sequence of them applied in order.\<close>

datatype 'm settle_call = CallResolve 'm | CallReject error

fun settle :: "'m promiseImp \<Rightarrow> 'm settle_call \<Rightarrow> 'm promiseImp" where
  "settle p (CallResolve msg) = Resolve p msg"
| "settle p (CallReject err) = Reject p err"

fun call_outcome :: "'m settle_call \<Rightarrow> PromiseError + 'm" where
  "call_outcome (CallResolve msg) = Inr msg"
| "call_outcome (CallReject err) = Inl \<lparr>Source = FromServer, Err = err\<rparr>"

text \<open>
  The invariant that makes the sends of \<open>Resolve\<close> and \<open>Reject\<close> non-blocking: while the
  guard has not fired both buffers are empty, and at most one buffer is ever full.
\<close>

definition promise_inv :: "'m promiseImp \<Rightarrow> bool" where
  "promise_inv p \<longleftrightarrow>
     (\<not> once p \<longrightarrow> resCh p = None \<and> errCh p = None) \<and> (resCh p = None \<or> errCh p = None)"

section \<open>The transport (package ws)\<close>

text \<open>\<open>strings.Contains\<close>.\<close>

fun Contains :: "string \<Rightarrow> string \<Rightarrow> bool" where
  "Contains [] sub = (sub = [])"
| "Contains (c # s) sub = (take (length sub) (c # s) = sub \<or> Contains s sub)"

definition CloseNormalClosure :: int where
  "CloseNormalClosure = 1000"

definition CloseAbnormalClosure :: int where
  "CloseAbnormalClosure = 1006"

definition IsCloseError :: "conn_error \<Rightarrow> int \<Rightarrow> bool" where
  "IsCloseError e code \<longleftrightarrow> close_code e = Some code"

definition isReadInterrupted :: "conn_error \<Rightarrow> bool" where
  "isReadInterrupted e \<longleftrightarrow>
     is_net_ErrClosed e \<or> is_io_ErrClosedPipe e
     \<or> Contains (err_text e) ''use of closed network connection''
     \<or> Contains (err_text e) ''close sent''"

definition isUnexpectedEOF :: "conn_error \<Rightarrow> bool" where
  "isUnexpectedEOF e \<longleftrightarrow> is_io_EOF e \<or> Contains (err_text e) ''unexpected EOF''"

definition isNetError :: "conn_error \<Rightarrow> bool" where
  "isNetError e \<longleftrightarrow> as_net_Error e"

definition isPayloadCorrupted :: "conn_error \<Rightarrow> bool" where
  "isPayloadCorrupted e \<longleftrightarrow>
     Contains (err_text e) ''invalid UTF-8'' \<or> Contains (err_text e) ''malformed''
     \<or> Contains (err_text e) ''unexpected opcode''
     \<or> Contains (err_text e) ''read limit exceeded''"

definition classifyWSError :: "conn_error \<Rightarrow> error" where
  "classifyWSError e =
     (if IsCloseError e CloseNormalClosure then Wrapped ErrWSNormalClosure e
      else if IsCloseError e CloseAbnormalClosure then Wrapped ErrWSAbnormalClosure e
      else if isReadInterrupted e then Wrapped ErrWSReadInterrupted e
      else if isUnexpectedEOF e then Wrapped ErrWSUnexpectedEOF e
      else if isNetError e then Wrapped ErrWSNetworkIssue e
      else if isPayloadCorrupted e then Wrapped ErrWSPayloadCorrupted e
      else Wrapped ErrWSInternalError e)"

text \<open>
  The connection behind the \<open>Conn\<close> interface.  What it answers to a call is an input
  of the model; the record counts how often \<open>Close\<close> was called on it and keeps the frames
  handed to its \<open>WriteMessage\<close>, oldest first.
\<close>

record 'w Conn =
  closed :: nat
  written :: "'w list"

text \<open>One element of the channel \<open>outCh\<close>: the struct \<open>msgResult\<close>.\<close>

record msgResult =
  res_msg :: string
  res_err :: "error option"

text \<open>
  A line handed to the logger: its level and its format string (the rendered arguments are
  not kept).
\<close>

datatype log_level = Debug | Error

type_synonym log_line = "log_level \<times> string"

text \<open>
  \<open>conn = None\<close> is the nil interface before a successful \<open>Connect\<close>.  \<open>logger = None\<close>
  is the nil logger; \<open>Some ls\<close> is a logger that has received the lines \<open>ls\<close>.  \<open>outCh\<close>
  is the content of the buffered channel, oldest element first, and \<open>outCap\<close> its capacity
  (\<open>None\<close> while the channel is still nil during construction).  The write timeout is
  kept in milliseconds.
\<close>

record 'w clientImp =
  conn :: "'w Conn option"
  logger :: "log_line list option"
  url :: string
  outCh :: "msgResult list"
  outCap :: "nat option"
  userWriteTimeout :: nat
  closeOnce :: bool
  closeErr :: "error option"

definition debugf :: "'w clientImp \<Rightarrow> string \<Rightarrow> 'w clientImp" where
  "debugf c fmt =
     (case logger c of None \<Rightarrow> c | Some ls \<Rightarrow> c\<lparr>logger := Some (ls @ [(Debug, fmt)])\<rparr>)"

definition errorf :: "'w clientImp \<Rightarrow> string \<Rightarrow> 'w clientImp" where
  "errorf c fmt =
     (case logger c of None \<Rightarrow> c | Some ls \<Rightarrow> c\<lparr>logger := Some (ls @ [(Error, fmt)])\<rparr>)"

text \<open>
  The options of \<open>NewClient\<close>.  \<open>WithLogger\<close> stands for the option with a logger (not nil)
  that has not received a line yet.  The size handed to \<open>WithBufferedOutCh\<close> is one for which
  \<open>make\<close> can allocate the channel: the failure of the allocation for a size beyond the
  memory of the machine is outside the model.
\<close>

datatype Option = WithLogger | WithWriteTimeout nat | WithBufferedOutCh int

fun apply_Option :: "'w clientImp \<Rightarrow> Option \<Rightarrow> 'w clientImp" where
  "apply_Option c WithLogger = c\<lparr>logger := Some []\<rparr>"
| "apply_Option c (WithWriteTimeout d) = c\<lparr>userWriteTimeout := d\<rparr>"
| "apply_Option c (WithBufferedOutCh n) =
     c\<lparr>outCh := [], outCap := Some (if n \<le> 0 then 1000 else nat n)\<rparr>"

definition NewClient :: "string \<Rightarrow> Option list \<Rightarrow> 'w clientImp outcome" where
  "NewClient u opts =
     (if u = [] then Panics ''url must not be empty''
      else
        let c = foldl apply_Option
                  \<lparr>conn = None, logger = None, url = u, outCh = [], outCap = None,
                   userWriteTimeout = 300, closeOnce = False, closeErr = None\<rparr> opts
        in Returns (if outCap c = None then c\<lparr>outCap := Some 1000\<rparr> else c))"

text \<open>
  \<open>Connect\<close>: \<open>dial\<close> is what \<open>DialContext\<close> answers, \<open>None\<close> for a new connection.
  The reader goroutine it starts is the repeated use of \<open>readAndHandle\<close> below.
\<close>

definition Connect_clientImp ::
    "'w clientImp \<Rightarrow> conn_error option \<Rightarrow> error option \<times> 'w clientImp" where
  "Connect_clientImp c dial =
     (case dial of
        Some e \<Rightarrow> (Some (classifyWSError e), errorf c ''connect failed: %v'')
      | None \<Rightarrow>
          (None, debugf (c\<lparr>conn := Some \<lparr>closed = 0, written = []\<rparr>\<rparr>) ''connected to %s''))"

text \<open>
  \<open>sendOrDrop\<close> is a \<open>select\<close> with a send and a \<open>default\<close>: the send proceeds when the
  buffer has a free slot, otherwise the default branch logs and the value is discarded.
\<close>

definition chan_full :: "'w clientImp \<Rightarrow> bool" where
  "chan_full c \<longleftrightarrow> (case outCap c of None \<Rightarrow> True | Some n \<Rightarrow> n \<le> length (outCh c))"

definition dropped_text :: string where
  "dropped_text =
     ''WS message dropped '' @ [CHR 0xE2, CHR 0x80, CHR 0x94]
       @ '' increase buffer or read faster''"

definition sendOrDrop :: "'w clientImp \<Rightarrow> string \<Rightarrow> error option \<Rightarrow> 'w clientImp" where
  "sendOrDrop c buf e =
     (if \<not> chan_full c then c\<lparr>outCh := outCh c @ [\<lparr>res_msg = buf, res_err = e\<rparr>]\<rparr>
      else errorf c dropped_text)"

text \<open>
  \<open>utf8.Valid\<close> on the bytes of a buffer: every byte below \<open>0x80\<close> stands alone, and a
  lead byte must be followed by the continuation bytes of a shortest-form encoding of a
  code point up to \<open>U+10FFFF\<close> that is not a surrogate.  \<open>in_range b lo hi\<close> is the test
  \<open>lo \<le> b \<le> hi\<close> of the accept ranges.
\<close>

definition in_range :: "char \<Rightarrow> nat \<Rightarrow> nat \<Rightarrow> bool" where
  "in_range b lo hi \<longleftrightarrow> lo \<le> of_char b \<and> of_char b \<le> hi"

function utf8_Valid :: "string \<Rightarrow> bool" where
  "utf8_Valid [] = True"
| "utf8_Valid (a # bs) =
     (if in_range a 0x00 0x7F then utf8_Valid bs
      else if in_range a 0xC2 0xDF then
        1 \<le> length bs \<and> in_range (bs ! 0) 0x80 0xBF \<and> utf8_Valid (drop 1 bs)
      else if in_range a 0xE0 0xEF then
        2 \<le> length bs
        \<and> in_range (bs ! 0) (if of_char a = (0xE0 :: nat) then 0xA0 else 0x80)
              (if of_char a = (0xED :: nat) then 0x9F else 0xBF)
        \<and> in_range (bs ! 1) 0x80 0xBF \<and> utf8_Valid (drop 2 bs)
      else if in_range a 0xF0 0xF4 then
        3 \<le> length bs
        \<and> in_range (bs ! 0) (if of_char a = (0xF0 :: nat) then 0x90 else 0x80)
              (if of_char a = (0xF4 :: nat) then 0x8F else 0xBF)
        \<and> in_range (bs ! 1) 0x80 0xBF \<and> in_range (bs ! 2) 0x80 0xBF
        \<and> utf8_Valid (drop 3 bs)
      else False)"
  by pat_completeness auto

termination
  by (relation "measure length") auto

text \<open>
  \<open>logWSMessage\<close> writes one debug line; which of the three formats depends on the buffer
  alone.
\<close>

definition logWSMessage :: "'w clientImp \<Rightarrow> string \<Rightarrow> 'w clientImp" where
  "logWSMessage c buf =
     (if 0 < length buf then
        (if utf8_Valid buf then debugf c ''recv [%s]: %s''
         else debugf c ''recv [%s]: <binary> %x'')
      else debugf c ''recv [%s]: <empty>'')"

text \<open>
  \<open>readAndHandle\<close>: \<open>buf\<close> and \<open>e\<close> are what \<open>conn.ReadMessage\<close> answers.  The result
  says whether the reader loop goes on.
\<close>

definition readAndHandle ::
    "'w clientImp \<Rightarrow> string \<Rightarrow> conn_error option \<Rightarrow> bool \<times> 'w clientImp" where
  "readAndHandle c buf e =
     (let c1 = logWSMessage c buf
      in case e of
           Some ce \<Rightarrow>
             (False,
              sendOrDrop (errorf c1 ''recv [%s] error: %v'') buf (Some (classifyWSError ce)))
         | None \<Rightarrow> (True, sendOrDrop c1 buf None))"

text \<open>\<open>ReadMessage\<close> receives from \<open>outCh\<close>; on an empty channel it waits.\<close>

definition ReadMessage ::
    "'w clientImp \<Rightarrow> (string \<times> error option) outcome \<times> 'w clientImp" where
  "ReadMessage c =
     (case outCh c of
        [] \<Rightarrow> (Blocks, c)
      | r # rs \<Rightarrow> (Returns (res_msg r, res_err r), c\<lparr>outCh := rs\<rparr>))"

text \<open>The message of the run-time panic of a method call or field access through nil.\<close>

definition nil_dereference :: string where
  "nil_dereference = ''runtime error: invalid memory address or nil pointer dereference''"

text \<open>
  \<open>WriteMessage\<close>: \<open>dl\<close> is the answer of \<open>SetWriteDeadline\<close>, \<open>wr\<close> the answer of the
  connection's \<open>WriteMessage\<close>.  On a nil connection the method call dereferences nil.
\<close>

definition WriteMessage ::
    "'w clientImp \<Rightarrow> 'w \<Rightarrow> conn_error option \<Rightarrow> conn_error option
       \<Rightarrow> error option outcome \<times> 'w clientImp" where
  "WriteMessage c frame dl wr =
     (case conn c of
        None \<Rightarrow> (Panics nil_dereference, c)
      | Some cn \<Rightarrow>
          (case dl of
             Some e \<Rightarrow> (Returns (Some (Wrapped ErrWriteTimeout e)),
                        errorf c ''set write deadline failed: %v'')
           | None \<Rightarrow>
               (case wr of
                  Some e \<Rightarrow>
                    (Returns (Some (Wrapped ErrWriteFailed e)), errorf c ''write failed: %v'')
                | None \<Rightarrow>
                    (Returns None,
                     c\<lparr>conn := Some (cn\<lparr>written := written cn @ [frame]\<rparr>)\<rparr>))))"

text \<open>
  \<open>Close\<close> runs its body under \<open>closeOnce\<close>.  A \<open>sync.Once\<close> counts a call whose function
  panics as done (the flag is stored by a deferred statement), so the guard has fired in the
  state a panicking \<open>Close\<close> leaves behind.  \<open>cl\<close> is the answer of \<open>conn.Close\<close>.
\<close>

definition Close_clientImp ::
    "'w clientImp \<Rightarrow> conn_error option \<Rightarrow> error option outcome \<times> 'w clientImp" where
  "Close_clientImp c cl =
     (if closeOnce c then (Returns (closeErr c), c)
      else
        (case conn c of
           None \<Rightarrow> (Panics ''Close: cannot call Close before successful Connect'',
                     c\<lparr>closeOnce := True\<rparr>)
         | Some cn \<Rightarrow>
             (let c1 = c\<lparr>conn := Some (cn\<lparr>closed := closed cn + 1\<rparr>), closeOnce := True\<rparr>
              in case cl of
                   None \<Rightarrow> (Returns (closeErr c1), c1)
                 | Some e \<Rightarrow>
                     (let c2 = (errorf c1 ''connection close failed: %v'')
                                 \<lparr>closeErr := Some (classifyWSError e)\<rparr>
                      in (Returns (closeErr c2), c2)))))"

section \<open>Session errors (package sdkerr)\<close>

datatype sdk_kind =
    ErrWSConnection | ErrWSWrite | ErrWSRead | ErrWSPing | ErrWSMessageTimeout
  | ErrWSServerError | ErrWSClose | ErrWSUnknown

text \<open>
  The message of an \<open>SDKError\<close> is a string.  Where the source sets it to the text of
  another error (\<open>perr.Err.Error()\<close>) the model keeps that error: \<open>TextOf e\<close>.
\<close>

datatype sdk_message = Text string | TextOf error

record SDKError =
  kind :: "sdk_kind option"
  message :: sdk_message
  cause :: "error option"
  op :: string
  subsys :: string

definition NewSDKError :: SDKError where
  "NewSDKError = \<lparr>kind = None, message = Text [], cause = None, op = [], subsys = []\<rparr>"

definition WithKind :: "SDKError \<Rightarrow> sdk_kind option \<Rightarrow> SDKError" where
  "WithKind e k = e\<lparr>kind := k\<rparr>"

definition WithMessage :: "SDKError \<Rightarrow> sdk_message \<Rightarrow> SDKError" where
  "WithMessage e m = e\<lparr>message := m\<rparr>"

definition WithCause :: "SDKError \<Rightarrow> error option \<Rightarrow> SDKError" where
  "WithCause e c = e\<lparr>cause := c\<rparr>"

definition WithOp :: "SDKError \<Rightarrow> string \<Rightarrow> SDKError" where
  "WithOp e s = e\<lparr>op := s\<rparr>"

definition WithSubsys :: "SDKError \<Rightarrow> string \<Rightarrow> SDKError" where
  "WithSubsys e s = e\<lparr>subsys := s\<rparr>"

section \<open>Locks and waiting points\<close>

text \<open>
  The sessions protect the active-subscription map with \<open>activeSubsMu\<close> and the pending
  promise (map or slot) with \<open>promisesMu\<close>.  Every \<open>Lock\<close>, every \<open>Unlock\<close> and every
  entry into \<open>promise.Await\<close> is recorded, in program order, in the field \<open>trace\<close> of the
  session, tagged with the goroutine that executes it: \<open>Caller\<close> for the goroutine that runs
  the operation (an application goroutine, or the pinger for \<open>sendPing\<close>), \<open>Reader\<close> for
  the read loop.  The write mutex of the client and the mutex inside the router protect
  neither of the two maps and are not recorded.
\<close>

datatype mutex = ActiveSubsMu | PromisesMu

datatype goroutine = Caller | Reader

datatype action = Lock mutex | Unlock mutex | Awaiting

type_synonym event = "goroutine \<times> action"

text \<open>
  The actions of the caller in a trace, and those added between two states of a trace.
\<close>

definition caller_actions :: "event list \<Rightarrow> action list" where
  "caller_actions es = map snd (filter (\<lambda>e. fst e = Caller) es)"



section \<open>The subscription router\<close>

text \<open>
  A value of the interface \<open>wsHandler\<close>: \<open>addr\<close> is the identity of the object behind the
  interface value (the key of the router's map), \<open>acceptEvent\<close> its method.  The effect of
  \<open>handleEvent\<close> is recorded by the router, see \<open>routed\<close>.
\<close>

record 'f wsHandler =
  addr :: nat
  acceptEvent :: "'f \<Rightarrow> bool"

text \<open>
  The router of \<open>futures/wsuser/handler_router.go\<close>: \<open>handlers\<close> is the Go map used as a
  set, keyed by handler identity.  \<open>routed\<close> records every \<open>Route\<close> call: the frame, and
  the handlers whose \<open>handleEvent\<close> was invoked with it (a Go map is iterated in no fixed
  order, so it is a set).

  Modelled from the spec: the files that implement \<open>handlerRouter\<close> for the spot market
  session and for the futures market session are not part of the sources; by section 4.2
  of the spec it is the same registry (\<open>register\<close>, \<open>unregister\<close>, \<open>route\<close>, \<open>count\<close>),
  so these sessions use this router at their own frame types.
\<close>

record 'f handlerRouterImp =
  handlers :: "nat \<rightharpoonup> 'f wsHandler"
  routed :: "('f \<times> nat set) list"

definition newHandlerRouter :: "'f handlerRouterImp" where
  "newHandlerRouter = \<lparr>handlers = Map.empty, routed = []\<rparr>"

definition Register :: "'f handlerRouterImp \<Rightarrow> 'f wsHandler \<Rightarrow> 'f handlerRouterImp" where
  "Register r h = r\<lparr>handlers := (handlers r)(addr h \<mapsto> h)\<rparr>"


definition Route :: "'f handlerRouterImp \<Rightarrow> 'f \<Rightarrow> 'f handlerRouterImp" where
  "Route r m =
     r\<lparr>routed := routed r @
          [(m, {a \<in> dom (handlers r). acceptEvent (the (handlers r a)) m})]\<rparr>"

definition Len :: "'f handlerRouterImp \<Rightarrow> int" where
  "Len r = int (card (dom (handlers r)))"

text \<open>
  What the environment does while one request is in flight: the answers of the connection
  to \<open>SetWriteDeadline\<close> and \<open>WriteMessage\<close>, the frames the read loop handles between
  the write and the moment the caller's \<open>select\<close> takes a case, the state of \<open>ctx.Done()\<close>
  at that moment, and the scheduler's pick among the ready cases.  The context is the one
  \<open>ensureDeadline\<close> returns; time is not modelled.
\<close>

record 'fr await_env =
  deadline_answer :: "conn_error option"
  write_answer :: "conn_error option"
  inbound :: "'fr list"
  ctx_done :: "error option"
  select_pick :: nat

datatype subscriptionOp = subscribe | unsubscribe

text \<open>
  What \<open>json.Unmarshal(data, &msg)\<close> leaves in a \<open>msg\<close> of type \<open>*message\<close>, as the
  futures sessions decode a frame: an error, the nil pointer without an error (the JSON
  literal \<open>null\<close>), or a message.
\<close>

datatype 'm unmarshalled = UnmarshalError | UnmarshalNil | Unmarshalled 'm

section \<open>The counter (internal/sync)\<close>

text \<open>
  \<open>CounterImpl\<close> holds a \<open>uint64\<close>.  \<open>Inc\<close> is \<open>atomic.AddUint64(&c.value, 1)\<close>: it
  returns the new value, and the addition wraps around at \<open>2 ^ 64\<close>.
\<close>

type_synonym CounterImpl = "64 word"

definition NewCounter :: CounterImpl where
  "NewCounter = 0"

definition Get :: "CounterImpl \<Rightarrow> 64 word" where
  "Get c = c"

definition Inc :: "CounterImpl \<Rightarrow> 64 word \<times> CounterImpl" where
  "Inc c = (c + 1, c + 1)"

section \<open>The spot market session (spot/wsmarket)\<close>

definition subsys :: string where
  "subsys = ''spot/wsmarket''"

definition defaultBaseURL :: string where
  "defaultBaseURL = ''wss://wbs-api.mexc.com/ws''"

definition maxCountSubscribes :: int where
  "maxCountSubscribes = 30"

definition reservedPongID :: "64 word" where
  "reservedPongID = 0"

text \<open>The JSON reply of the spot server.\<close>

record message =
  ID :: "64 word"
  Code :: int
  Msg :: string

text \<open>
  A frame as the read loop receives it: the bytes, and what \<open>json.Unmarshal\<close> and
  \<open>proto.Unmarshal\<close> make of them (\<open>None\<close> when the decoder returns an error).  The type
  \<open>'f\<close> stands for \<open>PushDataV3MarketWrapper\<close>.  The JSON decoder is only run on bytes
  that begin with an opening brace (\<open>isJSONMessage\<close>), so it cannot leave the message nil
  as it does for the literal \<open>null\<close>; the protobuf message is a value, not a pointer.
\<close>

record 'f frame =
  data :: string
  as_json :: "message option"
  as_proto :: "'f option"

type_synonym matchFunc = "message \<Rightarrow> bool \<times> error option"

text \<open>
  A value of the interface \<open>subscriptionSpec\<close>: the embedded \<open>wsHandler\<close>, and the
  results of \<open>id()\<close> and \<open>matches\<close>.  \<open>params\<close> is the JSON text of \<open>params()\<close>, or
  the error \<open>json.Marshal\<close> returns for it.
\<close>

record 'f subscriptionSpec =
  handler :: "'f wsHandler"
  sid :: string
  params :: "error + string"
  matches :: matchFunc

fun op_string :: "subscriptionOp \<Rightarrow> string" where
  "op_string subscribe = ''SUBSCRIPTION''"
| "op_string unsubscribe = ''UNSUBSCRIPTION''"

text \<open>A written frame is kept as the payload whose JSON encoding it is.\<close>

record wsRequestPayload =
  ID_p :: "64 word option"
  Method :: string
  Params :: "string list"

text \<open>The two implementations of the interface \<open>wsRequest\<close>.\<close>

datatype 'f wsRequest =
    subscriptionRequest "64 word" subscriptionOp "'f subscriptionSpec"
  | pingRequest "64 word"

definition newSubscriptionRequest ::
    "64 word \<Rightarrow> subscriptionOp \<Rightarrow> 'f subscriptionSpec \<Rightarrow> 'f wsRequest" where
  "newSubscriptionRequest i o_p spec = subscriptionRequest i o_p spec"

fun ID_req :: "'f wsRequest \<Rightarrow> 64 word" where
  "ID_req (subscriptionRequest i o_p spec) = i"
| "ID_req (pingRequest i) = i"

fun Message :: "'f wsRequest \<Rightarrow> error + wsRequestPayload" where
  "Message (subscriptionRequest i o_p spec) =
     (case params spec of
        Inl e \<Rightarrow> Inl e
      | Inr js \<Rightarrow> Inr \<lparr>ID_p = Some i, Method = op_string o_p, Params = [js]\<rparr>)"
| "Message (pingRequest i) = Inr \<lparr>ID_p = None, Method = ''PING'', Params = []\<rparr>"

fun MatchFunc :: "'f wsRequest \<Rightarrow> matchFunc" where
  "MatchFunc (subscriptionRequest i o_p spec) = matches spec"
| "MatchFunc (pingRequest i) = (\<lambda>m. (Code m = 0 \<and> Msg m = ''PONG'', None))"

text \<open>
  The handle \<open>subscriptionWrapper\<close>: the spec, its \<open>sync.Once\<close> and the error the first
  \<open>Unsubscribe\<close> recorded.
\<close>

record 'f subscriptionWrapper =
  inner :: "'f subscriptionSpec"
  once_w :: bool
  err_w :: "SDKError option"

text \<open>
  The session.  \<open>promiseFunc\<close> is \<open>NewPromise\<close>, the timeouts and the clock are not
  modelled.  \<open>onLatency\<close> and \<open>onDisconnect\<close> are \<open>None\<close> for a nil callback, otherwise
  they count the calls and keep the errors passed.  \<open>trace\<close> is the record of lock
  operations and waiting points described above.
\<close>

record 'f WSMarket =
  client :: "wsRequestPayload clientImp"
  onDisconnect :: "SDKError list option"
  onLatency :: "nat option"
  activeSubs :: "string \<rightharpoonup> 'f subscriptionWrapper"
  promisesMap :: "64 word \<rightharpoonup> message promiseImp"
  counter :: CounterImpl
  router :: "'f handlerRouterImp"
  closeOnce_ws :: bool
  closeErr_ws :: "SDKError option"
  trace :: "event list"

datatype Options = WithOnDisconnect | WithPingLatencyHandler

fun apply_Options :: "'f WSMarket \<Rightarrow> Options \<Rightarrow> 'f WSMarket" where
  "apply_Options w WithOnDisconnect = w\<lparr>onDisconnect := Some []\<rparr>"
| "apply_Options w WithPingLatencyHandler = w\<lparr>onLatency := Some 0\<rparr>"

definition NewWSMarketWithFactory ::
    "(string \<Rightarrow> wsRequestPayload clientImp outcome) option \<Rightarrow> Options list
       \<Rightarrow> 'f WSMarket outcome" where
  "NewWSMarketWithFactory factory opts =
     (case factory of
        None \<Rightarrow> Panics ''NewWSMarketWithFactory: factory must not be nil''
      | Some mk \<Rightarrow>
          (case mk defaultBaseURL of
             Panics s \<Rightarrow> Panics s
           | Blocks \<Rightarrow> Blocks
           | Returns c \<Rightarrow>
               Returns (foldl apply_Options
                 \<lparr>client = c, onDisconnect = None, onLatency = None, activeSubs = Map.empty,
                  promisesMap = Map.empty, counter = NewCounter, router = newHandlerRouter,
                  closeOnce_ws = False, closeErr_ws = None, trace = []\<rparr> opts)))"

definition NewWSMarket :: "Options list \<Rightarrow> 'f WSMarket outcome" where
  "NewWSMarket opts = NewWSMarketWithFactory (Some (\<lambda>u. NewClient u [])) opts"

definition errFactory :: "string \<Rightarrow> sdk_kind option \<Rightarrow> error option \<Rightarrow> SDKError" where
  "errFactory o_p k c =
     WithCause (WithKind (WithOp (WithSubsys NewSDKError subsys) (''WSMarket.'' @ o_p)) k) c"

definition log_event :: "event \<Rightarrow> 'f WSMarket \<Rightarrow> 'f WSMarket" where
  "log_event e w = w\<lparr>trace := trace w @ [e]\<rparr>"

definition createID :: "'f WSMarket \<Rightarrow> 64 word \<times> 'f WSMarket" where
  "createID w = (let (v, c) = Inc (counter w) in (v, w\<lparr>counter := c\<rparr>))"

definition Connect_WSMarket ::
    "'f WSMarket \<Rightarrow> conn_error option \<Rightarrow> SDKError option \<times> 'f WSMarket" where
  "Connect_WSMarket w dial =
     (case Connect_clientImp (client w) dial of
        (Some e, c) \<Rightarrow> (Some (errFactory ''Connect'' (Some ErrWSConnection) (Some e)), w\<lparr>client := c\<rparr>)
      | (None, c) \<Rightarrow> (None, w\<lparr>client := c\<rparr>))"

text \<open>
  \<open>Close\<close>: the body runs under the session's own \<open>closeOnce\<close>; a panic of the client's
  \<open>Close\<close> passes through it and leaves the guard fired.
\<close>

definition Close_WSMarket ::
    "'f WSMarket \<Rightarrow> conn_error option \<Rightarrow> SDKError option outcome \<times> 'f WSMarket" where
  "Close_WSMarket w cl =
     (if closeOnce_ws w then (Returns (closeErr_ws w), w)
      else
        (case Close_clientImp (client w) cl of
           (Panics s, c) \<Rightarrow> (Panics s, w\<lparr>client := c, closeOnce_ws := True\<rparr>)
         | (Blocks, c) \<Rightarrow> (Blocks, w\<lparr>client := c\<rparr>)
         | (Returns None, c) \<Rightarrow>
             (let w1 = w\<lparr>client := c, closeOnce_ws := True\<rparr> in (Returns (closeErr_ws w1), w1))
         | (Returns (Some e), c) \<Rightarrow>
             (let w1 = w\<lparr>client := c, closeOnce_ws := True,
                        closeErr_ws := Some (errFactory ''Close'' (Some ErrWSClose) (Some e))\<rparr>
              in (Returns (closeErr_ws w1), w1))))"

definition isJSONMessage :: "string \<Rightarrow> bool" where
  "isJSONMessage d \<longleftrightarrow>
     (let n = length d in 1 < n \<and> d ! 0 = CHR ''{'' \<and> d ! (n - 1) = CHR ''}'')"

text \<open>
  \<open>handleJSONMessage\<close>, run by the read loop.  The promise is looked up under the id of the
  reply; the error of \<open>Match\<close> is discarded by the source.
\<close>

definition handleJSONMessage :: "'f WSMarket \<Rightarrow> 'f frame \<Rightarrow> 'f WSMarket" where
  "handleJSONMessage w fr =
     (case as_json fr of
        None \<Rightarrow> w
      | Some m \<Rightarrow>
          (let w1 = log_event (Reader, Lock PromisesMu) w
           in case promisesMap w1 (ID m) of
                None \<Rightarrow> log_event (Reader, Unlock PromisesMu) w1
              | Some promise \<Rightarrow>
                  (let (ok, _) = Match promise m;
                       promise' = (if ok then Resolve promise m
                                   else Reject promise (CodeMsgError (Code m) (Msg m)))
                   in log_event (Reader, Unlock PromisesMu)
                        (w1\<lparr>promisesMap := (promisesMap w1)(ID m \<mapsto> promise')\<rparr>))))"

definition handleProtoMessage :: "'f WSMarket \<Rightarrow> 'f frame \<Rightarrow> 'f WSMarket" where
  "handleProtoMessage w fr =
     (case as_proto fr of
        None \<Rightarrow> w
      | Some m \<Rightarrow> w\<lparr>router := Route (router w) m\<rparr>)"

definition handleMessage :: "'f WSMarket \<Rightarrow> 'f frame \<Rightarrow> 'f WSMarket" where
  "handleMessage w fr =
     (if isJSONMessage (data fr) then handleJSONMessage w fr else handleProtoMessage w fr)"

text \<open>
  The two critical sections of \<open>sendAndAwaitResponse\<close>: storing the promise under the
  request id, and the deferred removal.
\<close>

definition store_promise ::
    "'f WSMarket \<Rightarrow> 64 word \<Rightarrow> message promiseImp \<Rightarrow> 'f WSMarket" where
  "store_promise w i p =
     log_event (Caller, Unlock PromisesMu)
       ((log_event (Caller, Lock PromisesMu) w)\<lparr>promisesMap := (promisesMap w)(i \<mapsto> p)\<rparr>)"

definition drop_promise :: "'f WSMarket \<Rightarrow> 64 word \<Rightarrow> 'f WSMarket" where
  "drop_promise w i =
     log_event (Caller, Unlock PromisesMu)
       ((log_event (Caller, Lock PromisesMu) w)\<lparr>promisesMap := (promisesMap w)(i := None)\<rparr>)"

text \<open>
  \<open>sendAndAwaitResponse\<close>.  While the caller waits in \<open>Await\<close> the read loop handles the
  frames \<open>inbound env\<close>; the promise the caller waits on is the object stored in the map.
  A caller that waits for ever does not run its deferred removal.
\<close>

definition sendAndAwaitResponse ::
    "'f WSMarket \<Rightarrow> 'f wsRequest \<Rightarrow> 'f frame await_env
       \<Rightarrow> SDKError option outcome \<times> 'f WSMarket" where
  "sendAndAwaitResponse w req env =
     (let promise = NewPromise (MatchFunc req);
          w1 = store_promise w (ID_req req) promise
      in case Message req of
           Inl e \<Rightarrow>
             (Returns (Some (errFactory ''sendAndAwaitResponse'' (Some ErrWSWrite) (Some e))),
              drop_promise w1 (ID_req req))
         | Inr fr \<Rightarrow>
             (case WriteMessage (client w1) fr (deadline_answer env) (write_answer env) of
                (Panics s, c) \<Rightarrow> (Panics s, drop_promise (w1\<lparr>client := c\<rparr>) (ID_req req))
              | (Blocks, c) \<Rightarrow> (Blocks, w1\<lparr>client := c\<rparr>)
              | (Returns (Some e), c) \<Rightarrow>
                  (Returns (Some (errFactory ''sendAndAwaitResponse'' (Some ErrWSWrite) (Some e))),
                   drop_promise (w1\<lparr>client := c\<rparr>) (ID_req req))
              | (Returns None, c) \<Rightarrow>
                  (let w2 = log_event (Caller, Awaiting) (w1\<lparr>client := c\<rparr>);
                       w3 = foldl handleMessage w2 (inbound env);
                       p = (case promisesMap w3 (ID_req req) of Some q \<Rightarrow> q | None \<Rightarrow> promise)
                   in case Await p (ctx_done env) (select_pick env) of
                        None \<Rightarrow> (Blocks, w3)
                      | Some (Inr m, p') \<Rightarrow> (Returns None, drop_promise w3 (ID_req req))
                      | Some (Inl perr, p') \<Rightarrow>
                          (case Source perr of
                             FromContext \<Rightarrow>
                               (Returns (Some (WithMessage
                                  (errFactory ''sendAndAwaitResponse'' (Some ErrWSMessageTimeout) None)
                                  (TextOf (Err perr)))),
                                drop_promise w3 (ID_req req))
                           | FromServer \<Rightarrow>
                               (Returns (Some (WithMessage
                                  (errFactory ''sendAndAwaitResponse'' (Some ErrWSServerError) None)
                                  (TextOf (Err perr)))),
                                drop_promise w3 (ID_req req))
                           | FromUnknown \<Rightarrow>
                               (Panics ''unreachable'', drop_promise w3 (ID_req req))))))"

text \<open>
  \<open>Subscribe\<close>.  \<open>None\<close> is the nil subscription.  \<open>activeSubsMu\<close> is locked after the
  id is read and unlocked by a deferred call when the function is left.
\<close>

definition Subscribe_WSMarket ::
    "'f WSMarket \<Rightarrow> 'f subscriptionSpec option \<Rightarrow> 'f frame await_env
       \<Rightarrow> (SDKError + 'f subscriptionWrapper) outcome \<times> 'f WSMarket" where
  "Subscribe_WSMarket w sub env =
     (case sub of
        None \<Rightarrow> (Panics ''WSMarket.Subscribe: subscribe must not be nil'', w)
      | Some s \<Rightarrow>
          (let subID = sid s;
               w1 = log_event (Caller, Lock ActiveSubsMu) w
           in if activeSubs w1 subID \<noteq> None then
                (Returns (Inl (WithMessage
                   (errFactory ''Subscribe'' None (Some ErrDuplicateSubscription))
                   (Text (''already subscribed: '' @ subID)))),
                 log_event (Caller, Unlock ActiveSubsMu) w1)
              else if maxCountSubscribes \<le> Len (router w1) then
                (Returns (Inl (WithMessage
                   (errFactory ''Subscribe'' None (Some ErrMaxCountSubscribes))
                   (Text ''subscription limit exceeded (max allowed: 30)''))),
                 log_event (Caller, Unlock ActiveSubsMu) w1)
              else
                (let (i, w2) = createID w1;
                     req = newSubscriptionRequest i subscribe s
                 in case sendAndAwaitResponse w2 req env of
                      (Blocks, w3) \<Rightarrow> (Blocks, w3)
                    | (Panics t, w3) \<Rightarrow> (Panics t, log_event (Caller, Unlock ActiveSubsMu) w3)
                    | (Returns (Some e), w3) \<Rightarrow>
                        (Returns (Inl e), log_event (Caller, Unlock ActiveSubsMu) w3)
                    | (Returns None, w3) \<Rightarrow>
                        (let wrapper = \<lparr>inner = s, once_w = False, err_w = None\<rparr>;
                             w4 = w3\<lparr>activeSubs := (activeSubs w3)(subID \<mapsto> wrapper)\<rparr>;
                             w5 = w4\<lparr>router := Register (router w4) (handler s)\<rparr>
                         in (Returns (Inr wrapper),
                             log_event (Caller, Unlock ActiveSubsMu) w5)))))"



section \<open>The futures user session (futures/wsuser)\<close>

definition subsys_u :: string where
  "subsys_u = ''futures/wsuser''"

definition maxCountSubscribes_u :: int where
  "maxCountSubscribes_u = 6"

text \<open>
  The message of the futures server.  \<open>Data\<close> is the raw JSON of the field;
  \<open>DataString\<close> is what \<open>json.Unmarshal(msg.Data, &s)\<close> gives for a string \<open>s\<close>,
  \<open>None\<close> when it returns an error.  An inbound frame is given by what \<open>json.Unmarshal\<close>
  makes of it, a value of type \<open>fmessage unmarshalled\<close>.
\<close>

record fmessage =
  Channel :: string
  Data :: string
  DataString :: "string option"
  Symbol :: string
  Ts :: "64 word"

type_synonym matchFunc_u = "fmessage \<Rightarrow> bool \<times> error option"

text \<open>A value of this package's \<open>subscriptionSpec\<close>: the handler and \<open>id()\<close>.\<close>

record fsubscriptionSpec =
  handler_u :: "fmessage wsHandler"
  sid_u :: string

record fsubscriptionWrapper =
  inner_u :: fsubscriptionSpec
  once_u :: bool

text \<open>
  The requests of this session.  A written frame is kept as the method it carries and, for
  the login, the key (the signature and the time stamp are not kept).
\<close>

datatype fwsRequest = loginRequest string string | pingRequest_u

datatype fpayload = LoginPayload string | PingPayload


fun MatchFunc_u :: "fwsRequest \<Rightarrow> matchFunc_u" where
  "MatchFunc_u (loginRequest apiKey secretKey) =
     (\<lambda>m. if Channel m = ''rs.login'' \<and> DataString m = None
             then (False, Some (InvalidSuccessPayload (Data m)))
           else if Channel m = ''rs.login'' \<and> DataString m = Some ''success''
             then (True, None)
           else if Channel m = ''rs.error'' then (True, Some (AuthFailed (Data m)))
           else (False, None))"
| "MatchFunc_u pingRequest_u =
     (\<lambda>m. if Channel m = ''pong'' then (True, None)
           else if Channel m = ''rs.error'' then (True, Some (PingFailed (Data m)))
           else (False, None))"

text \<open>The session: one promise slot instead of a map, and no counter.\<close>

record WSUser =
  client_u :: "fpayload clientImp"
  apiKey_u :: string
  secretKey_u :: string
  onLatency_u :: "nat option"
  activeSubs_u :: "string \<rightharpoonup> fsubscriptionWrapper"
  promise_u :: "fmessage promiseImp option"
  router_u :: "fmessage handlerRouterImp"
  closeOnce_u :: bool
  closeErr_u :: "SDKError option"
  trace_u :: "event list"

definition errFactory_u :: "string \<Rightarrow> sdk_kind option \<Rightarrow> error option \<Rightarrow> SDKError" where
  "errFactory_u o_p k c =
     WithCause (WithKind (WithOp (WithSubsys NewSDKError subsys_u) (''WSUser.'' @ o_p)) k) c"

definition log_event_u :: "event \<Rightarrow> WSUser \<Rightarrow> WSUser" where
  "log_event_u e w = w\<lparr>trace_u := trace_u w @ [e]\<rparr>"

definition Close_WSUser ::
    "WSUser \<Rightarrow> conn_error option \<Rightarrow> SDKError option outcome \<times> WSUser" where
  "Close_WSUser w cl =
     (if closeOnce_u w then (Returns (closeErr_u w), w)
      else
        (case Close_clientImp (client_u w) cl of
           (Panics s, c) \<Rightarrow> (Panics s, w\<lparr>client_u := c, closeOnce_u := True\<rparr>)
         | (Blocks, c) \<Rightarrow> (Blocks, w\<lparr>client_u := c\<rparr>)
         | (Returns None, c) \<Rightarrow>
             (let w1 = w\<lparr>client_u := c, closeOnce_u := True\<rparr> in (Returns (closeErr_u w1), w1))
         | (Returns (Some e), c) \<Rightarrow>
             (let w1 = w\<lparr>client_u := c, closeOnce_u := True,
                        closeErr_u := Some (errFactory_u ''Close'' (Some ErrWSClose) (Some e))\<rparr>
              in (Returns (closeErr_u w1), w1))))"

text \<open>\<open>Subscribe\<close> of this session registers at once: no request is sent.\<close>

definition Subscribe_WSUser ::
    "WSUser \<Rightarrow> fsubscriptionSpec option
       \<Rightarrow> (SDKError + fsubscriptionWrapper) outcome \<times> WSUser" where
  "Subscribe_WSUser w sub =
     (case sub of
        None \<Rightarrow> (Panics ''WSUser.Subscribe: subscribe must not be nil'', w)
      | Some s \<Rightarrow>
          (let subID = sid_u s;
               w1 = log_event_u (Caller, Lock ActiveSubsMu) w
           in if activeSubs_u w1 subID \<noteq> None then
                (Returns (Inl (WithMessage
                   (errFactory_u ''Subscribe'' None (Some ErrDuplicateSubscription))
                   (Text (''already subscribed: '' @ subID)))),
                 log_event_u (Caller, Unlock ActiveSubsMu) w1)
              else if maxCountSubscribes_u \<le> Len (router_u w1) then
                (Returns (Inl (WithMessage
                   (errFactory_u ''Subscribe'' None (Some ErrMaxCountSubscribes))
                   (Text ''subscription limit exceeded (max allowed: 6)''))),
                 log_event_u (Caller, Unlock ActiveSubsMu) w1)
              else
                (let wrapper = \<lparr>inner_u = s, once_u = False\<rparr>;
                     w2 = w1\<lparr>activeSubs_u := (activeSubs_u w1)(subID \<mapsto> wrapper)\<rparr>;
                     w3 = w2\<lparr>router_u := Register (router_u w2) (handler_u s)\<rparr>
                 in (Returns (Inr wrapper), log_event_u (Caller, Unlock ActiveSubsMu) w3))))"


text \<open>
  \<open>handleMessage\<close>, run by the read loop: the pending promise is asked first, and the
  router gets the frame unless the promise accepted it.  On the nil message the first field
  access panics: every match function of the package (\<open>MatchFunc_u\<close>) and every
  \<open>acceptEvent\<close> starts by reading \<open>msg.Channel\<close>, so the call panics when a promise is
  pending or a handler is registered (the deferred \<open>Unlock\<close> runs), and otherwise \<open>Route\<close>
  finds no handler to call and nothing is recorded.  The panic is in the goroutine of the
  read loop and is not recovered: it ends the program.
\<close>

definition handleMessage_WSUser ::
    "WSUser \<Rightarrow> fmessage unmarshalled \<Rightarrow> unit outcome \<times> WSUser" where
  "handleMessage_WSUser w fr =
     (case fr of
        UnmarshalError \<Rightarrow> (Returns (), w)
      | UnmarshalNil \<Rightarrow>
          (let w1 = log_event_u (Reader, Lock PromisesMu) w
           in if promise_u w1 = None \<and> dom (handlers (router_u w1)) = {}
              then (Returns (), log_event_u (Reader, Unlock PromisesMu) w1)
              else (Panics nil_dereference, log_event_u (Reader, Unlock PromisesMu) w1))
      | Unmarshalled m \<Rightarrow>
          (let w1 = log_event_u (Reader, Lock PromisesMu) w;
               forward = log_event_u (Reader, Unlock PromisesMu)
                           (w1\<lparr>router_u := Route (router_u w1) m\<rparr>)
           in case promise_u w1 of
                None \<Rightarrow> (Returns (), forward)
              | Some p \<Rightarrow>
                  (case Match p m of
                     (True, None) \<Rightarrow>
                       (Returns (),
                        log_event_u (Reader, Unlock PromisesMu)
                          (w1\<lparr>promise_u := Some (Resolve p m)\<rparr>))
                   | (True, Some e) \<Rightarrow>
                       (Returns (),
                        log_event_u (Reader, Unlock PromisesMu)
                          (w1\<lparr>promise_u := Some (Reject p e)\<rparr>))
                   | (False, _) \<Rightarrow> (Returns (), forward))))"


definition store_promise_u :: "WSUser \<Rightarrow> fmessage promiseImp \<Rightarrow> WSUser" where
  "store_promise_u w p =
     log_event_u (Caller, Unlock PromisesMu)
       ((log_event_u (Caller, Lock PromisesMu) w)\<lparr>promise_u := Some p\<rparr>)"





section \<open>The futures market session (futures/wsmarket): the inbound path\<close>

text \<open>
  Of this session the model has the path of an inbound frame.  The message type of the
  package is the one of the futures user session (\<open>fmessage\<close>).  The record holds the
  fields of the session that \<open>handleMessage\<close> reads or writes, the pending promise and the
  router, and the trace of its lock operations.
\<close>

record FWSMarket =
  promise_f :: "fmessage promiseImp option"
  router_f :: "fmessage handlerRouterImp"
  trace_f :: "event list"

definition log_event_f :: "event \<Rightarrow> FWSMarket \<Rightarrow> FWSMarket" where
  "log_event_f e w = w\<lparr>trace_f := trace_f w @ [e]\<rparr>"

definition isCompressed :: "string \<Rightarrow> bool" where
  "isCompressed d \<longleftrightarrow> 2 \<le> length d \<and> d ! 0 = CHR 0x1F \<and> d ! 1 = CHR 0x8B"

text \<open>
  An inbound frame: its bytes, what \<open>unzipPayload\<close> returns for them (\<open>None\<close> for an
  error), and what \<open>json.Unmarshal\<close> makes of \<open>jsonData\<close>, which is the unzipped payload
  of a compressed frame and the frame itself otherwise.
\<close>

record fframe =
  data_f :: string
  unzipPayload :: "string option"
  unmarshal_f :: "fmessage unmarshalled"

text \<open>
  \<open>handleMessage\<close>: after the decompression the code is that of the futures user session,
  and so is what happens on the nil message (the match functions and \<open>acceptEvent\<close>
  methods of this package read \<open>msg.Channel\<close> first, too).
\<close>

definition handleMessage_FWSMarket :: "FWSMarket \<Rightarrow> fframe \<Rightarrow> unit outcome \<times> FWSMarket" where
  "handleMessage_FWSMarket w fr =
     (if isCompressed (data_f fr) \<and> unzipPayload fr = None then (Returns (), w)
      else
        (case unmarshal_f fr of
           UnmarshalError \<Rightarrow> (Returns (), w)
         | UnmarshalNil \<Rightarrow>
             (let w1 = log_event_f (Reader, Lock PromisesMu) w
              in if promise_f w1 = None \<and> dom (handlers (router_f w1)) = {}
                 then (Returns (), log_event_f (Reader, Unlock PromisesMu) w1)
                 else (Panics nil_dereference, log_event_f (Reader, Unlock PromisesMu) w1))
         | Unmarshalled m \<Rightarrow>
             (let w1 = log_event_f (Reader, Lock PromisesMu) w;
                  forward = log_event_f (Reader, Unlock PromisesMu)
                              (w1\<lparr>router_f := Route (router_f w1) m\<rparr>)
              in case promise_f w1 of
                   None \<Rightarrow> (Returns (), forward)
                 | Some p \<Rightarrow>
                     (case Match p m of
                        (True, None) \<Rightarrow>
                          (Returns (),
                           log_event_f (Reader, Unlock PromisesMu)
                             (w1\<lparr>promise_f := Some (Resolve p m)\<rparr>))
                      | (True, Some e) \<Rightarrow>
                          (Returns (),
                           log_event_f (Reader, Unlock PromisesMu)
                             (w1\<lparr>promise_f := Some (Reject p e)\<rparr>))
                      | (False, _) \<Rightarrow> (Returns (), forward)))))"

text \<open>The match function of this session's \<open>pingRequest\<close>.\<close>

definition pingMatchFunc_f :: matchFunc_u where
  "pingMatchFunc_f =
     (\<lambda>m. if Channel m = ''pong'' then (True, None)
           else if Channel m = ''rs.error'' then (True, Some (PingFailed (Data m)))
           else (False, None))"

section \<open>Sequences of calls and reference states\<close>

text \<open>\<open>Close\<close> called once per element of the list, each with the connection's answer.\<close>

fun Close_all ::
    "'f WSMarket \<Rightarrow> conn_error option list \<Rightarrow> SDKError option outcome list \<times> 'f WSMarket" where
  "Close_all w [] = ([], w)"
| "Close_all w (cl # cls) =
     (let (r, w1) = Close_WSMarket w cl; (rs, w2) = Close_all w1 cls in (r # rs, w2))"

text \<open>How often \<open>Close\<close> was called on the session's connection.\<close>

definition times_closed :: "'f WSMarket \<Rightarrow> nat" where
  "times_closed w = (case conn (client w) of None \<Rightarrow> 0 | Some cn \<Rightarrow> closed cn)"

text \<open>
  A session whose transport is connected and whose close guards are in step with the
  connection: the client's guard has fired exactly if \<open>Close\<close> has been called on the
  connection, which then happened once; the session's guard has fired only if the client's
  has; and an error is recorded only behind a fired guard.  A successful \<open>Connect\<close> on a
  session on which \<open>Close\<close> was never called gives such a state, and every \<open>Close\<close>
  after it, of the session or of the client by its reader, keeps it (shown below).  The
  state is not reached when \<open>Close\<close> was called before \<open>Connect\<close>: then the guards have
  fired and the connection has not been closed.
\<close>

definition guards_in_step :: "'f WSMarket \<Rightarrow> bool" where
  "guards_in_step w \<longleftrightarrow>
     (case conn (client w) of
        None \<Rightarrow> False
      | Some cn \<Rightarrow> closed cn = (if closeOnce (client w) then 1 else 0))
     \<and> (closeOnce (client w) \<or> closeErr (client w) = None)
     \<and> (closeOnce_ws w \<or> closeErr_ws w = None)
     \<and> (closeOnce (client w) \<or> \<not> closeOnce_ws w)"

text \<open>
  The reader of the client ends with the deferred \<open>c.Close()\<close> of \<open>startReader\<close>: the
  session after that call, \<open>cl\<close> being the connection's answer.
\<close>

definition reader_closes :: "'f WSMarket \<Rightarrow> conn_error option \<Rightarrow> 'f WSMarket" where
  "reader_closes w cl = w\<lparr>client := snd (Close_clientImp (client w) cl)\<rparr>"

text \<open>
  The session \<open>NewWSMarket\<close> builds without options, with frames of type \<open>string\<close>, and
  the same session after a successful \<open>Connect\<close>.
\<close>

definition fresh_session :: "string WSMarket" where
  "fresh_session =
     \<lparr>client = \<lparr>conn = None, logger = None, url = defaultBaseURL, outCh = [],
                outCap = Some 1000, userWriteTimeout = 300, closeOnce = False,
                closeErr = None\<rparr>,
      onDisconnect = None, onLatency = None, activeSubs = Map.empty,
      promisesMap = Map.empty, counter = 0, router = \<lparr>handlers = Map.empty, routed = []\<rparr>,
      closeOnce_ws = False, closeErr_ws = None, trace = []\<rparr>"

definition connected_session :: "string WSMarket" where
  "connected_session = snd (Connect_WSMarket fresh_session None)"

text \<open>\<open>createID\<close> called \<open>n\<close> times in a row: the ids produced, in order.\<close>

fun createIDs :: "nat \<Rightarrow> 'f WSMarket \<Rightarrow> 64 word list \<times> 'f WSMarket" where
  "createIDs 0 w = ([], w)"
| "createIDs (Suc n) w =
     (let (i, w1) = createID w; (js, w2) = createIDs n w1 in (i # js, w2))"

text \<open>
  A subscription of the kind \<open>NewBookDepthSub\<close> builds, with a push frame represented by
  its channel name, and the replies of the server to its subscribe request with id 1: the
  acknowledgment, which repeats the stream name, and a refusal.
\<close>

definition depth_stream :: string where
  "depth_stream = ''spot@public.limit.depth.v3.api.pb@BTCUSDT@5''"

definition depth_sub :: "string subscriptionSpec" where
  "depth_sub =
     \<lparr>handler = \<lparr>addr = 1, acceptEvent = (\<lambda>ch. ch = depth_stream)\<rparr>,
      sid = depth_stream,
      params = Inr (CHR 0x22 # depth_stream @ [CHR 0x22]),
      matches = (\<lambda>m. (Msg m = depth_stream, None))\<rparr>"

definition ack_frame :: "string frame" where
  \<open>ack_frame =
     \<lparr>data = ''{"id":1,"code":0,"msg":"spot@public.limit.depth.v3.api.pb@BTCUSDT@5"}'',
      as_json = Some \<lparr>ID = 1, Code = 0, Msg = depth_stream\<rparr>,
      as_proto = None\<rparr>\<close>

definition nack_frame :: "string frame" where
  \<open>nack_frame =
     \<lparr>data = ''{"id":1,"code":0,"msg":"Not Subscribed successfully!"}'',
      as_json = Some \<lparr>ID = 1, Code = 0, Msg = ''Not Subscribed successfully!''\<rparr>,
      as_proto = None\<rparr>\<close>

definition pong_frame :: "string frame" where
  \<open>pong_frame =
     \<lparr>data = ''{"id":0,"code":0,"msg":"PONG"}'',
      as_json = Some \<lparr>ID = 0, Code = 0, Msg = ''PONG''\<rparr>,
      as_proto = None\<rparr>\<close>

text \<open>Environments of one request: the write succeeds and the read loop handles the frames.\<close>

definition env_with :: "'fr list \<Rightarrow> error option \<Rightarrow> 'fr await_env" where
  "env_with frs ctx =
     \<lparr>deadline_answer = None, write_answer = None, inbound = frs, ctx_done = ctx,
      select_pick = 0\<rparr>"

text \<open>A connection error as a failed write reports it.\<close>

definition broken_pipe :: conn_error where
  "broken_pipe =
     \<lparr>close_code = None, is_net_ErrClosed = False, is_io_ErrClosedPipe = False,
      is_io_EOF = False, as_net_Error = True, err_text = ''write: broken pipe''\<rparr>"

text \<open>The connected session with \<open>depth_sub\<close> active, as a successful \<open>Subscribe\<close> leaves it.\<close>

definition subscribed_session :: "string WSMarket" where
  "subscribed_session =
     snd (Subscribe_WSMarket connected_session (Some depth_sub) (env_with [ack_frame] None))"

text \<open>
  A connected session of the futures user streams, a subscription of the kind
  \<open>NewAssetSub\<close> builds, and the session with that subscription active.
\<close>

definition user_session :: WSUser where
  "user_session =
     \<lparr>client_u = \<lparr>conn = Some \<lparr>closed = 0, written = []\<rparr>, logger = None,
                  url = ''wss://contract.mexc.com/edge'', outCh = [], outCap = Some 1000,
                  userWriteTimeout = 300, closeOnce = False, closeErr = None\<rparr>,
      apiKey_u = ''key'', secretKey_u = ''secret'', onLatency_u = None,
      activeSubs_u = Map.empty, promise_u = None,
      router_u = \<lparr>handlers = Map.empty, routed = []\<rparr>,
      closeOnce_u = False, closeErr_u = None, trace_u = []\<rparr>"

definition asset_sub :: fsubscriptionSpec where
  "asset_sub =
     \<lparr>handler_u = \<lparr>addr = 1, acceptEvent = (\<lambda>m. Channel m = ''push.personal.asset'')\<rparr>,
      sid_u = ''asset''\<rparr>"

definition user_subscribed :: WSUser where
  "user_subscribed = snd (Subscribe_WSUser user_session (Some asset_sub))"

text \<open>
  A push frame of the spot server: bytes that are not JSON and that \<open>proto.Unmarshal\<close>
  decodes to a message of the channel \<open>depth_stream\<close>.
\<close>

definition push_frame :: "string frame" where
  "push_frame = \<lparr>data = [CHR 0x0A, CHR 0x2C], as_json = None, as_proto = Some depth_stream\<rparr>"

text \<open>
  A futures market session while its ping is pending, a push frame of the futures server,
  sent uncompressed, and a frame with the gzip magic number that \<open>unzipPayload\<close> cannot
  read.
\<close>

definition market_session :: FWSMarket where
  "market_session =
     \<lparr>promise_f = Some (NewPromise pingMatchFunc_f),
      router_f = \<lparr>handlers = Map.empty, routed = []\<rparr>, trace_f = []\<rparr>"

definition ticker_msg :: fmessage where
  "ticker_msg =
     \<lparr>Channel = ''push.ticker'', Data = ''{}'', DataString = None, Symbol = ''BTC_USDT'',
      Ts = 0\<rparr>"

definition ticker_frame :: fframe where
  \<open>ticker_frame =
     \<lparr>data_f = ''{"channel":"push.ticker","data":{},"symbol":"BTC_USDT","ts":0}'',
      unzipPayload = None, unmarshal_f = Unmarshalled ticker_msg\<rparr>\<close>

definition broken_gzip_frame :: fframe where
  "broken_gzip_frame =
     \<lparr>data_f = [CHR 0x1F, CHR 0x8B, CHR 0x08], unzipPayload = None,
      unmarshal_f = UnmarshalError\<rparr>"

text \<open>A push frame of the futures user streams, as decoded.\<close>

definition asset_msg :: fmessage where
  "asset_msg =
     \<lparr>Channel = ''push.personal.asset'', Data = ''{}'', DataString = None, Symbol = [],
      Ts = 0\<rparr>"


text \<open>
  The first frame of a list that the read loop takes as a JSON reply with the id \<open>i\<close>,
  and the state in which these frames leave a promise that was stored under \<open>i\<close> with
  the predicate \<open>f\<close> just before they arrived.
\<close>

fun first_reply :: "64 word \<Rightarrow> 'f frame list \<Rightarrow> message option" where
  "first_reply i [] = None"
| "first_reply i (fr # frs) =
     (if isJSONMessage (data fr) \<and> map_option ID (as_json fr) = Some i then as_json fr
      else first_reply i frs)"

definition awaited_promise :: "64 word \<Rightarrow> matchFunc \<Rightarrow> 'f frame list \<Rightarrow> message promiseImp" where
  "awaited_promise i f frs =
     (case first_reply i frs of
        None \<Rightarrow> NewPromise f
      | Some m \<Rightarrow>
          if fst (f m) then Resolve (NewPromise f) m
          else Reject (NewPromise f) (CodeMsgError (Code m) (Msg m)))"

text \<open>
  The sequences of lock operations and waiting points one \<open>sendAndAwaitResponse\<close> can add
  for its caller: it fails before the wait, it waits for ever, or it waits and returns.
\<close>

definition await_shapes :: "action list list" where
  "await_shapes =
     [[Lock PromisesMu, Unlock PromisesMu, Lock PromisesMu, Unlock PromisesMu],
      [Lock PromisesMu, Unlock PromisesMu],
      [Lock PromisesMu, Unlock PromisesMu, Awaiting],
      [Lock PromisesMu, Unlock PromisesMu, Awaiting, Lock PromisesMu, Unlock PromisesMu]]"

text \<open>
  A session at the limit: thirty subscriptions are active, with the keys \<open>x\<close>, \<open>xx\<close>, ...
  (\<open>stream_name n\<close> is \<open>n + 1\<close> letters), each registered with the router under the
  address \<open>n\<close>, after thirty ids have been produced.
\<close>

definition stream_name :: "nat \<Rightarrow> string" where
  "stream_name n = replicate (Suc n) (CHR ''x'')"

definition stream_sub :: "nat \<Rightarrow> string subscriptionSpec" where
  "stream_sub n =
     \<lparr>handler = \<lparr>addr = n, acceptEvent = (\<lambda>ch. ch = stream_name n)\<rparr>,
      sid = stream_name n,
      params = Inr (CHR 0x22 # stream_name n @ [CHR 0x22]),
      matches = (\<lambda>m. (Msg m = stream_name n, None))\<rparr>"

definition full_session :: "string WSMarket" where
  "full_session =
     connected_session
       \<lparr>activeSubs :=
          (\<lambda>k. if k = stream_name (length k - 1) \<and> 0 < length k \<and> length k \<le> 30
                then Some \<lparr>inner = stream_sub (length k - 1), once_w = False, err_w = None\<rparr>
                else None),
        counter := 30,
        router :=
          \<lparr>handlers = (\<lambda>a. if a < 30 then Some (handler (stream_sub a)) else None),
           routed = []\<rparr>\<rparr>"

text \<open>
  The futures user session at its limit: six subscriptions are active, with the keys
  \<open>stream_name 0\<close>, ..., \<open>stream_name 5\<close>.
\<close>

definition user_sub :: "nat \<Rightarrow> fsubscriptionSpec" where
  "user_sub n =
     \<lparr>handler_u = \<lparr>addr = n, acceptEvent = (\<lambda>m. Channel m = ''push.personal.'' @ stream_name n)\<rparr>,
      sid_u = stream_name n\<rparr>"

definition full_user_session :: WSUser where
  "full_user_session =
     user_session
       \<lparr>activeSubs_u :=
          (\<lambda>k. if k = stream_name (length k - 1) \<and> 0 < length k \<and> length k \<le> 6
                then Some \<lparr>inner_u = user_sub (length k - 1), once_u = False\<rparr>
                else None),
        router_u :=
          \<lparr>handlers = (\<lambda>a. if a < 6 then Some (handler_u (user_sub a)) else None),
           routed = []\<rparr>\<rparr>"


section \<open>Properties of the settlement primitive\<close>

lemma promise_inv_NewPromise: "promise_inv (NewPromise f)"
  by (simp add: promise_inv_def NewPromise_def)

lemma promise_inv_settle: "promise_inv p \<Longrightarrow> promise_inv (settle p c)"
  by (cases c) (auto simp: promise_inv_def Resolve_def Reject_def)

lemma promise_inv_Await:
  "promise_inv p \<Longrightarrow> Await p ctx pick = Some (r, p') \<Longrightarrow> promise_inv p'"
proof -
  assume inv: "promise_inv p" and aw: "Await p ctx pick = Some (r, p')"
  from aw have ne: "await_ready p ctx \<noteq> []"
    and el: "(r, p') = await_ready p ctx ! (pick mod length (await_ready p ctx))"
    by (auto simp: Await_def Let_def split: if_splits)
  from ne have "pick mod length (await_ready p ctx) < length (await_ready p ctx)"
    by simp
  with el have "(r, p') \<in> set (await_ready p ctx)"
    by (metis nth_mem)
  with inv show "promise_inv p'"
    by (auto simp: await_ready_def promise_inv_def split: option.splits)
qed

lemma once_settle: "once (settle p c)"
  by (cases c) (simp_all add: Resolve_def Reject_def)

lemma settle_after_once: "once p \<Longrightarrow> settle p c = p"
  by (cases c) (simp_all add: Resolve_def Reject_def)

lemma settle_all_after_once: "once p \<Longrightarrow> foldl settle p cs = p"
  by (induction cs) (simp_all add: settle_after_once)

lemma settle_all_first: "foldl settle p (c # cs) = settle p c"
  by (simp add: settle_all_after_once once_settle)

lemma await_ready_settled:
  "await_ready (settle (NewPromise f) c) ctx =
     (call_outcome c, (NewPromise f)\<lparr>once := True\<rparr>) #
     (case ctx of
        Some e \<Rightarrow> [(Inl \<lparr>Source = FromContext, Err = e\<rparr>, settle (NewPromise f) c)]
      | None \<Rightarrow> [])"
  by (cases c)
    (simp_all add: await_ready_def NewPromise_def Resolve_def Reject_def split: option.splits)

lemma await_ready_consumed:
  "await_ready ((NewPromise f)\<lparr>once := True\<rparr>) ctx =
     (case ctx of
        Some e \<Rightarrow> [(Inl \<lparr>Source = FromContext, Err = e\<rparr>, (NewPromise f)\<lparr>once := True\<rparr>)]
      | None \<Rightarrow> [])"
  by (simp add: await_ready_def NewPromise_def split: option.splits)

lemma Await_settled_open:
  "Await (settle (NewPromise f) c) None pick
     = Some (call_outcome c, (NewPromise f)\<lparr>once := True\<rparr>)"
  by (simp add: Await_def await_ready_settled)

lemma Await_settled_done:
  "Await (settle (NewPromise f) c) (Some e) pick
     = Some (if even pick then (call_outcome c, (NewPromise f)\<lparr>once := True\<rparr>)
             else (Inl \<lparr>Source = FromContext, Err = e\<rparr>, settle (NewPromise f) c))"
proof (cases "even pick")
  case True
  then have "pick mod Suc (Suc 0) = 0" by presburger
  with True show ?thesis by (simp add: Await_def await_ready_settled)
next
  case False
  then have "pick mod Suc (Suc 0) = Suc 0" by presburger
  with False show ?thesis by (simp add: Await_def await_ready_settled)
qed

lemma Await_consumed_open: "Await ((NewPromise f)\<lparr>once := True\<rparr>) None pick = None"
  by (simp add: Await_def await_ready_consumed)

lemma Await_consumed_done:
  "Await ((NewPromise f)\<lparr>once := True\<rparr>) (Some e) pick
     = Some (Inl \<lparr>Source = FromContext, Err = e\<rparr>, (NewPromise f)\<lparr>once := True\<rparr>)"
  by (simp add: Await_def await_ready_consumed)

text \<open>
  C1, as the code has it.  Starting from a new (pending) promise, any non-empty sequence of
  \<open>Resolve\<close> and \<open>Reject\<close> calls leaves the promise in exactly the state the first call
  alone produces: the guard has fired, exactly one of the two buffers holds a value (the
  first call's), and every later call changes nothing.

  What an \<open>Await\<close> on that state returns depends on its context and on how often the
  promise has been awaited.  Under a context that is not done it returns the outcome of the
  first call.  Under a context that is done two cases of the \<open>select\<close> are ready, and it
  returns the outcome of the first call or the context's error (source \<open>FromContext\<close>),
  whichever the scheduler picks; after the context's error the promise is as before.  The
  \<open>Await\<close> that returns the outcome takes it out of the buffer and leaves the guard fired:
  in that state further \<open>Resolve\<close> and \<open>Reject\<close> calls still change nothing, and a further
  \<open>Await\<close> waits while its context is not done and returns the context's error once it is.
\<close>

theorem C1_first_settlement_wins:
  "foldl settle (NewPromise f) (c # cs) = settle (NewPromise f) c
   \<and> once (foldl settle (NewPromise f) (c # cs))
   \<and> (case c of
        CallResolve msg \<Rightarrow>
          resCh (foldl settle (NewPromise f) (c # cs)) = Some msg
          \<and> errCh (foldl settle (NewPromise f) (c # cs)) = None
      | CallReject err \<Rightarrow>
          errCh (foldl settle (NewPromise f) (c # cs)) = Some err
          \<and> resCh (foldl settle (NewPromise f) (c # cs)) = None)
   \<and> Await (foldl settle (NewPromise f) (c # cs)) None pick
       = Some (call_outcome c, (NewPromise f)\<lparr>once := True\<rparr>)
   \<and> Await (foldl settle (NewPromise f) (c # cs)) (Some e) pick
       = Some (if even pick then (call_outcome c, (NewPromise f)\<lparr>once := True\<rparr>)
               else (Inl \<lparr>Source = FromContext, Err = e\<rparr>,
                     foldl settle (NewPromise f) (c # cs)))
   \<and> foldl settle ((NewPromise f)\<lparr>once := True\<rparr>) ds = (NewPromise f)\<lparr>once := True\<rparr>
   \<and> Await ((NewPromise f)\<lparr>once := True\<rparr>) None pick = None
   \<and> Await ((NewPromise f)\<lparr>once := True\<rparr>) (Some e) pick
       = Some (Inl \<lparr>Source = FromContext, Err = e\<rparr>, (NewPromise f)\<lparr>once := True\<rparr>)"
proof -
  have eq: "foldl settle (NewPromise f) (c # cs) = settle (NewPromise f) c"
    by (rule settle_all_first)
  have chans: "case c of
        CallResolve msg \<Rightarrow>
          resCh (settle (NewPromise f) c) = Some msg \<and> errCh (settle (NewPromise f) c) = None
      | CallReject err \<Rightarrow>
          errCh (settle (NewPromise f) c) = Some err \<and> resCh (settle (NewPromise f) c) = None"
    by (cases c) (simp_all add: NewPromise_def Resolve_def Reject_def)
  have later: "foldl settle ((NewPromise f)\<lparr>once := True\<rparr>) ds = (NewPromise f)\<lparr>once := True\<rparr>"
    by (rule settle_all_after_once) simp
  show ?thesis
    unfolding eq
    using chans later Await_settled_open [of f c pick] Await_settled_done [of f c e pick]
      Await_consumed_open [of f pick] Await_consumed_done [of f e pick]
    by (simp add: once_settle)
qed

text \<open>
  The claim as written, for every \<open>Await\<close> that follows the settlement, fails twice.  The
  promise of a subscribe request is resolved with the acknowledgment; an \<open>Await\<close> whose
  context is already done can return the context's error instead of that outcome; and after
  an \<open>Await\<close> has returned the outcome, the next \<open>Await\<close> under an open context does not
  return at all.
\<close>

theorem C1_later_await_counterexample:
  "map_option fst
     (Await (Resolve (NewPromise (matches depth_sub)) \<lparr>ID = 1, Code = 0, Msg = depth_stream\<rparr>)
        (Some DeadlineExceeded) 1)
     = Some (Inl \<lparr>Source = FromContext, Err = DeadlineExceeded\<rparr>)
   \<and> Inl \<lparr>Source = FromContext, Err = DeadlineExceeded\<rparr>
       \<noteq> call_outcome (CallResolve \<lparr>ID = 1, Code = 0, Msg = depth_stream\<rparr>)
   \<and> map_option fst
        (Await (Resolve (NewPromise (matches depth_sub)) \<lparr>ID = 1, Code = 0, Msg = depth_stream\<rparr>)
           None 0)
       = Some (call_outcome (CallResolve \<lparr>ID = 1, Code = 0, Msg = depth_stream\<rparr>))
   \<and> Await (snd (the (Await (Resolve (NewPromise (matches depth_sub))
                                 \<lparr>ID = 1, Code = 0, Msg = depth_stream\<rparr>) None 0)))
        None 0
       = None"
  by (simp add: Await_def await_ready_def NewPromise_def Resolve_def)


section \<open>Properties of the transport\<close>

lemma NewWSMarket_fresh: "NewWSMarket [] = Returns fresh_session"
  by (simp add: NewWSMarket_def NewWSMarketWithFactory_def NewClient_def fresh_session_def
      defaultBaseURL_def NewCounter_def newHandlerRouter_def Let_def)

lemma connected_session_simp:
  "connected_session =
     fresh_session\<lparr>client := (client fresh_session)\<lparr>conn := Some \<lparr>closed = 0, written = []\<rparr>\<rparr>\<rparr>"
  by (simp add: connected_session_def Connect_WSMarket_def Connect_clientImp_def debugf_def
      fresh_session_def)

lemma guards_in_step_connected_session: "guards_in_step connected_session"
  by (simp add: connected_session_simp guards_in_step_def fresh_session_def)

lemma sendOrDrop_full: "chan_full c \<Longrightarrow> sendOrDrop c buf e = errorf c dropped_text"
  by (simp add: sendOrDrop_def)

lemma outCh_errorf: "outCh (errorf c s) = outCh c"
  by (simp add: errorf_def split: option.splits)

text \<open>
  C7, as the code has it.  When the buffer of \<open>outCh\<close> is full, \<open>sendOrDrop\<close> discards
  the frame that has just arrived: the buffered frames stay as they are, oldest first, the
  only change to the client is one error line for the logger (no change at all without a
  logger), and the call returns.  With a free slot the frame is appended behind the
  buffered ones.
\<close>

theorem C7_full_buffer_drops_incoming:
  "(chan_full c \<longrightarrow>
      outCh (sendOrDrop c buf e) = outCh c
      \<and> sendOrDrop c buf e =
          (case logger c of
             None \<Rightarrow> c
           | Some ls \<Rightarrow> c\<lparr>logger := Some (ls @ [(Error, dropped_text)])\<rparr>))
   \<and> (\<not> chan_full c \<longrightarrow>
      sendOrDrop c buf e = c\<lparr>outCh := outCh c @ [\<lparr>res_msg = buf, res_err = e\<rparr>]\<rparr>)"
  by (simp add: sendOrDrop_def errorf_def split: option.splits)

theorem C7_full_buffer_drops_incoming_witness:
  "chan_full \<lparr>conn = None, logger = Some [], url = ''u'',
              outCh = [\<lparr>res_msg = ''old'', res_err = None\<rparr>], outCap = Some 1,
              userWriteTimeout = 300, closeOnce = False, closeErr = None\<rparr>
   \<and> sendOrDrop \<lparr>conn = None :: unit Conn option, logger = Some [], url = ''u'',
              outCh = [\<lparr>res_msg = ''old'', res_err = None\<rparr>], outCap = Some 1,
              userWriteTimeout = 300, closeOnce = False, closeErr = None\<rparr> ''new'' None
      = \<lparr>conn = None, logger = Some [(Error, dropped_text)], url = ''u'',
              outCh = [\<lparr>res_msg = ''old'', res_err = None\<rparr>], outCap = Some 1,
              userWriteTimeout = 300, closeOnce = False, closeErr = None\<rparr>
   \<and> \<not> chan_full \<lparr>conn = None :: unit Conn option, logger = None, url = ''u'',
              outCh = [], outCap = Some 1,
              userWriteTimeout = 300, closeOnce = False, closeErr = None\<rparr>
   \<and> outCh (sendOrDrop \<lparr>conn = None :: unit Conn option, logger = None, url = ''u'',
              outCh = [], outCap = Some 1,
              userWriteTimeout = 300, closeOnce = False, closeErr = None\<rparr> ''new'' None)
      = [\<lparr>res_msg = ''new'', res_err = None\<rparr>]"
  using C7_full_buffer_drops_incoming
      [of "\<lparr>conn = None :: unit Conn option, logger = Some [], url = ''u'',
              outCh = [\<lparr>res_msg = ''old'', res_err = None\<rparr>], outCap = Some 1,
              userWriteTimeout = 300, closeOnce = False, closeErr = None\<rparr>" "''new''" None]
    C7_full_buffer_drops_incoming
      [of "\<lparr>conn = None :: unit Conn option, logger = None, url = ''u'',
              outCh = [], outCap = Some 1,
              userWriteTimeout = 300, closeOnce = False, closeErr = None\<rparr>" "''new''" None]
  by (simp add: chan_full_def)

text \<open>
  The claim as written fails: with a buffer of one slot that holds the frame \<open>old\<close>, the
  arrival of \<open>new\<close> leaves \<open>old\<close> in the buffer and \<open>new\<close> is the frame that is lost.
\<close>

theorem C7_oldest_is_kept_counterexample:
  "chan_full \<lparr>conn = None :: unit Conn option, logger = Some [], url = ''u'',
              outCh = [\<lparr>res_msg = ''old'', res_err = None\<rparr>], outCap = Some 1,
              userWriteTimeout = 300, closeOnce = False, closeErr = None\<rparr>
   \<and> outCh (sendOrDrop \<lparr>conn = None :: unit Conn option, logger = Some [], url = ''u'',
              outCh = [\<lparr>res_msg = ''old'', res_err = None\<rparr>], outCap = Some 1,
              userWriteTimeout = 300, closeOnce = False, closeErr = None\<rparr> ''new'' None)
      = [\<lparr>res_msg = ''old'', res_err = None\<rparr>]
   \<and> \<lparr>res_msg = ''new'', res_err = None\<rparr>
      \<notin> set (outCh (sendOrDrop \<lparr>conn = None :: unit Conn option, logger = Some [], url = ''u'',
              outCh = [\<lparr>res_msg = ''old'', res_err = None\<rparr>], outCap = Some 1,
              userWriteTimeout = 300, closeOnce = False, closeErr = None\<rparr> ''new'' None))"
  by (simp add: chan_full_def sendOrDrop_def errorf_def)

lemma Close_WSMarket_fired:
  "closeOnce_ws w \<Longrightarrow> Close_WSMarket w cl = (Returns (closeErr_ws w), w)"
  by (simp add: Close_WSMarket_def)

lemma Close_all_fired:
  "closeOnce_ws w \<Longrightarrow> Close_all w cls = (replicate (length cls) (Returns (closeErr_ws w)), w)"
  by (induction cls) (simp_all add: Close_WSMarket_fired)

lemma guards_in_step_Connect:
  assumes "\<not> closeOnce (client w0)" and "closeErr (client w0) = None"
    and "\<not> closeOnce_ws w0" and "closeErr_ws w0 = None"
  shows "guards_in_step (snd (Connect_WSMarket w0 None))"
  using assms
  by (simp add: guards_in_step_def Connect_WSMarket_def Connect_clientImp_def debugf_def
      split: option.splits)

lemma guards_in_step_reader_closes:
  assumes "guards_in_step w"
  shows "guards_in_step (reader_closes w cl)"
proof -
  from assms obtain cn where cn: "conn (client w) = Some cn"
    by (auto simp: guards_in_step_def split: option.splits)
  show ?thesis
  proof (cases "closeOnce (client w)")
    case True
    with assms show ?thesis
      by (simp add: reader_closes_def Close_clientImp_def guards_in_step_def)
  next
    case False
    with assms cn show ?thesis
      by (cases cl)
        (auto simp: reader_closes_def Close_clientImp_def guards_in_step_def Let_def
          errorf_def split: option.splits)
  qed
qed

lemma Close_WSMarket_in_step:
  assumes "guards_in_step w"
  shows "\<exists>w1. Close_WSMarket w cl = (Returns (closeErr_ws w1), w1)
           \<and> closeOnce_ws w1 \<and> times_closed w1 = 1 \<and> guards_in_step w1
           \<and> closeErr (client w1) =
               (if closeOnce (client w) then closeErr (client w)
                else map_option classifyWSError cl)
           \<and> closeErr_ws w1 =
               (if closeOnce_ws w then closeErr_ws w
                else map_option (\<lambda>e. errFactory ''Close'' (Some ErrWSClose) (Some e))
                       (closeErr (client w1)))"
proof -
  from assms obtain cn where cn: "conn (client w) = Some cn"
      "closed cn = (if closeOnce (client w) then 1 else 0)"
    by (auto simp: guards_in_step_def split: option.splits)
  from assms have st: "closeOnce (client w) \<or> closeErr (client w) = None"
      "closeOnce_ws w \<or> closeErr_ws w = None" "closeOnce (client w) \<or> \<not> closeOnce_ws w"
    by (simp_all add: guards_in_step_def)
  consider (session) "closeOnce_ws w" "closeOnce (client w)"
    | (reader) "\<not> closeOnce_ws w" "closeOnce (client w)"
    | (nobody) "\<not> closeOnce_ws w" "\<not> closeOnce (client w)"
    using st(3) by blast
  then show ?thesis
  proof cases
    case session
    with assms cn show ?thesis
      by (simp add: Close_WSMarket_def times_closed_def)
  next
    case reader
    with cn st show ?thesis
      by (cases "closeErr (client w)")
        (simp_all add: Close_WSMarket_def Close_clientImp_def times_closed_def
          guards_in_step_def Let_def)
  next
    case nobody
    with cn st show ?thesis
      by (cases cl)
        (simp_all add: Close_WSMarket_def Close_clientImp_def times_closed_def
          guards_in_step_def Let_def errorf_def split: option.splits)
  qed
qed

text \<open>
  C6, as the code has it.  Take a session whose transport is connected and whose close
  guards are in step with the connection (\<open>guards_in_step\<close>); this covers the session that
  nobody has closed, the session whose connection the transport's reader has already
  closed, and the session that has been closed before.  Any non-empty sequence of \<open>Close\<close>
  calls on it leaves the connection closed exactly once in total, the error of that one
  close (classified by the client, wrapped by the session), or nil, is what the session has
  recorded, and every call of the sequence returns that recorded value.  The guards stay in
  step through these calls and through the reader's close, and a successful \<open>Connect\<close> on
  a session on which \<open>Close\<close> was never called puts them in step.
\<close>

theorem C6_close_idempotent_when_connected:
  assumes "guards_in_step w" and "Close_all w (cl # cls) = (rs, w')"
  shows "times_closed w' = 1
         \<and> closeErr (client w') =
             (if closeOnce (client w) then closeErr (client w)
              else map_option classifyWSError cl)
         \<and> closeErr_ws w' =
             (if closeOnce_ws w then closeErr_ws w
              else map_option (\<lambda>e. errFactory ''Close'' (Some ErrWSClose) (Some e))
                     (closeErr (client w')))
         \<and> rs = replicate (Suc (length cls)) (Returns (closeErr_ws w'))
         \<and> guards_in_step w'
         \<and> guards_in_step (reader_closes w cl')
         \<and> (\<not> closeOnce (client w0) \<and> closeErr (client w0) = None
              \<and> \<not> closeOnce_ws w0 \<and> closeErr_ws w0 = None
             \<longrightarrow> guards_in_step (snd (Connect_WSMarket w0 None)))"
proof -
  from Close_WSMarket_in_step [OF assms(1), of cl] obtain w1 where
    w1: "Close_WSMarket w cl = (Returns (closeErr_ws w1), w1)" "closeOnce_ws w1"
      "times_closed w1 = 1" "guards_in_step w1"
      "closeErr (client w1) =
         (if closeOnce (client w) then closeErr (client w) else map_option classifyWSError cl)"
      "closeErr_ws w1 =
         (if closeOnce_ws w then closeErr_ws w
          else map_option (\<lambda>e. errFactory ''Close'' (Some ErrWSClose) (Some e))
                 (closeErr (client w1)))"
    by blast
  from w1(2) have rest: "Close_all w1 cls = (replicate (length cls) (Returns (closeErr_ws w1)), w1)"
    by (rule Close_all_fired)
  from assms(2) w1(1) rest
  have eq: "w' = w1"
    and rs: "rs = Returns (closeErr_ws w1) # replicate (length cls) (Returns (closeErr_ws w1))"
    by auto
  have connect: "\<not> closeOnce (client w0) \<and> closeErr (client w0) = None
              \<and> \<not> closeOnce_ws w0 \<and> closeErr_ws w0 = None
             \<longrightarrow> guards_in_step (snd (Connect_WSMarket w0 None))"
    by (simp add: guards_in_step_Connect)
  from w1(3-6) eq rs guards_in_step_reader_closes [OF assms(1), of cl'] connect
  show ?thesis by simp
qed

text \<open>
  Three \<open>Close\<close> calls on the connected session, and two on the session whose reader has
  closed the connection with an error: the connection is closed once, and every call
  returns the recorded result.
\<close>

theorem C6_close_idempotent_when_connected_witness:
  "guards_in_step connected_session
   \<and> times_closed (snd (Close_all connected_session [None, None, None])) = 1
   \<and> fst (Close_all connected_session [None, None, None])
       = [Returns None, Returns None, Returns None]
   \<and> guards_in_step (reader_closes connected_session (Some broken_pipe))
   \<and> times_closed (reader_closes connected_session (Some broken_pipe)) = 1
   \<and> times_closed
        (snd (Close_all (reader_closes connected_session (Some broken_pipe)) [None, None])) = 1
   \<and> fst (Close_all (reader_closes connected_session (Some broken_pipe)) [None, None])
       = replicate 2
           (Returns (Some (errFactory ''Close'' (Some ErrWSClose)
              (Some (classifyWSError broken_pipe)))))"
proof -
  let ?r = "reader_closes connected_session (Some broken_pipe)"
  have a: "guards_in_step connected_session"
    by (rule guards_in_step_connected_session)
  have b: "guards_in_step ?r"
    using a by (rule guards_in_step_reader_closes)
  have r: "closeOnce (client ?r)" "\<not> closeOnce_ws ?r"
      "closeErr (client ?r) = Some (classifyWSError broken_pipe)" "times_closed ?r = 1"
    by (simp_all add: reader_closes_def connected_session_simp fresh_session_def
        Close_clientImp_def Let_def errorf_def times_closed_def)
  have c: "\<not> closeOnce (client connected_session)" "\<not> closeOnce_ws connected_session"
    by (simp_all add: connected_session_simp fresh_session_def)
  from C6_close_idempotent_when_connected [OF a surjective_pairing,
      where cl = None and cls = "[None, None]" and cl' = None and ?w0.0 = fresh_session]
  have first: "times_closed (snd (Close_all connected_session [None, None, None])) = 1"
      "fst (Close_all connected_session [None, None, None])
         = [Returns None, Returns None, Returns None]"
    using c by (simp_all add: numeral_3_eq_3)
  from C6_close_idempotent_when_connected [OF b surjective_pairing,
      where cl = None and cls = "[None]" and cl' = None and ?w0.0 = fresh_session]
  have second: "times_closed (snd (Close_all ?r [None, None])) = 1"
      "fst (Close_all ?r [None, None])
         = replicate 2
             (Returns (Some (errFactory ''Close'' (Some ErrWSClose)
                (Some (classifyWSError broken_pipe)))))"
    using r by (simp_all add: numeral_2_eq_2)
  from a b r(4) first second show ?thesis
    by simp
qed

text \<open>
  The claim as written, for every session, fails on a session that was never connected:
  its first \<open>Close\<close> panics and no connection is closed.  It also fails when that panic is
  recovered and the session is connected afterwards: the connection is open, both guards
  have fired, and \<open>Close\<close> returns nil without ever closing the connection.
\<close>

theorem C6_never_connected_counterexample:
  "fst (Close_WSMarket fresh_session None)
     = Panics ''Close: cannot call Close before successful Connect''
   \<and> times_closed (snd (Close_WSMarket fresh_session None)) = 0
   \<and> conn (client (snd (Connect_WSMarket (snd (Close_WSMarket fresh_session None)) None)))
       = Some \<lparr>closed = 0, written = []\<rparr>
   \<and> fst (Close_all (snd (Connect_WSMarket (snd (Close_WSMarket fresh_session None)) None))
            [None, None])
       = [Returns None, Returns None]
   \<and> times_closed
        (snd (Close_all (snd (Connect_WSMarket (snd (Close_WSMarket fresh_session None)) None))
               [None, None])) = 0"
  by (simp add: Close_WSMarket_def Close_clientImp_def Connect_WSMarket_def
      Connect_clientImp_def debugf_def fresh_session_def times_closed_def)

text \<open>
  C9, as the code has it.  On a session whose connection handle is nil and whose close
  guards have not fired, \<open>Close\<close> (of the client and of the session) panics with the
  message of the source.  The panicking call fires the guards, so a further \<open>Close\<close> on the
  state it leaves behind returns the recorded error, which is still the initial one, and
  closes nothing.
\<close>

theorem C9_first_close_panics:
  assumes "conn (client w) = None" and "\<not> closeOnce (client w)" and "\<not> closeOnce_ws w"
  shows "fst (Close_clientImp (client w) cl)
           = Panics ''Close: cannot call Close before successful Connect''
         \<and> fst (Close_WSMarket w cl)
           = Panics ''Close: cannot call Close before successful Connect''
         \<and> fst (Close_WSMarket (snd (Close_WSMarket w cl)) cl') = Returns (closeErr_ws w)
         \<and> conn (client (snd (Close_WSMarket (snd (Close_WSMarket w cl)) cl'))) = None"
  using assms by (simp add: Close_WSMarket_def Close_clientImp_def)

theorem C9_first_close_panics_witness:
  "conn (client fresh_session) = None \<and> \<not> closeOnce (client fresh_session)
   \<and> \<not> closeOnce_ws fresh_session
   \<and> fst (Close_WSMarket fresh_session None)
       = Panics ''Close: cannot call Close before successful Connect''
   \<and> fst (Close_WSMarket (snd (Close_WSMarket fresh_session None)) None) = Returns None"
  using C9_first_close_panics [of fresh_session None None]
  by (simp add: fresh_session_def)

text \<open>
  The claim as written, for every session with a nil connection handle, fails on the state
  a first (recovered) \<open>Close\<close> leaves behind: the handle is still nil and \<open>Close\<close> returns
  nil instead of panicking.
\<close>

theorem C9_second_close_returns_counterexample:
  "conn (client (snd (Close_WSMarket fresh_session None))) = None
   \<and> fst (Close_WSMarket (snd (Close_WSMarket fresh_session None)) None) = Returns None"
  by (simp add: Close_WSMarket_def Close_clientImp_def fresh_session_def)


section \<open>Properties of the sessions: duplicates, inbound frames, correlation ids\<close>

lemmas subscribe_ack_defs =
  Subscribe_WSMarket_def sendAndAwaitResponse_def store_promise_def drop_promise_def
  log_event_def createID_def Inc_def WriteMessage_def handleMessage_def handleJSONMessage_def
  isJSONMessage_def Await_def await_ready_def NewPromise_def Match_def Resolve_def
  newSubscriptionRequest_def Len_def Register_def maxCountSubscribes_def
  connected_session_simp fresh_session_def env_with_def depth_sub_def ack_frame_def
  depth_stream_def Let_def

lemma subscribed_session_active: "activeSubs subscribed_session (sid depth_sub) \<noteq> None"
  by (simp add: subscribed_session_def subscribe_ack_defs)

lemma user_subscribed_active: "activeSubs_u user_subscribed (sid_u asset_sub) \<noteq> None"
  by (simp add: user_subscribed_def Subscribe_WSUser_def log_event_u_def user_session_def
      asset_sub_def Len_def maxCountSubscribes_u_def Let_def)

text \<open>
  C4.  When the key of the spec is already in the active-subscription map, \<open>Subscribe\<close>
  returns the duplicate-subscription error and the session is the one before the call: the
  map, the router, the pending promises, the counter and the connection are the same, and
  the only trace of the call is that \<open>activeSubsMu\<close> was locked and unlocked.  This holds
  for the spot market session (for every environment) and for the futures user session.
\<close>

theorem C4_duplicate_subscribe_rejected:
  "(activeSubs w (sid s) \<noteq> None \<longrightarrow>
      Subscribe_WSMarket w (Some s) env =
        (Returns (Inl (WithMessage
           (errFactory ''Subscribe'' None (Some ErrDuplicateSubscription))
           (Text (''already subscribed: '' @ sid s)))),
         w\<lparr>trace := trace w @ [(Caller, Lock ActiveSubsMu), (Caller, Unlock ActiveSubsMu)]\<rparr>))
   \<and> (activeSubs_u u (sid_u t) \<noteq> None \<longrightarrow>
      Subscribe_WSUser u (Some t) =
        (Returns (Inl (WithMessage
           (errFactory_u ''Subscribe'' None (Some ErrDuplicateSubscription))
           (Text (''already subscribed: '' @ sid_u t)))),
         u\<lparr>trace_u := trace_u u @ [(Caller, Lock ActiveSubsMu), (Caller, Unlock ActiveSubsMu)]\<rparr>))"
  by (simp add: Subscribe_WSMarket_def Subscribe_WSUser_def log_event_def log_event_u_def Let_def)

theorem C4_duplicate_subscribe_rejected_witness:
  "activeSubs subscribed_session (sid depth_sub) \<noteq> None
   \<and> Subscribe_WSMarket subscribed_session (Some depth_sub) (env_with [ack_frame] None) =
        (Returns (Inl (WithMessage
           (errFactory ''Subscribe'' None (Some ErrDuplicateSubscription))
           (Text (''already subscribed: '' @ sid depth_sub)))),
         subscribed_session\<lparr>trace := trace subscribed_session
            @ [(Caller, Lock ActiveSubsMu), (Caller, Unlock ActiveSubsMu)]\<rparr>)
   \<and> activeSubs_u user_subscribed (sid_u asset_sub) \<noteq> None
   \<and> fst (Subscribe_WSUser user_subscribed (Some asset_sub)) =
        Returns (Inl (WithMessage
           (errFactory_u ''Subscribe'' None (Some ErrDuplicateSubscription))
           (Text (''already subscribed: '' @ sid_u asset_sub))))"
  using C4_duplicate_subscribe_rejected
      [of subscribed_session depth_sub "env_with [ack_frame] None" user_subscribed asset_sub]
    subscribed_session_active user_subscribed_active
  by simp

lemma handleMessage_WSUser_message:
  assumes "promise_u u = Some p"
  shows "fst (handleMessage_WSUser u (Unmarshalled m)) = Returns ()
         \<and> promise_u (snd (handleMessage_WSUser u (Unmarshalled m))) =
             Some (case Match p m of
                     (True, None) \<Rightarrow> Resolve p m
                   | (True, Some e) \<Rightarrow> Reject p e
                   | (False, _) \<Rightarrow> p)
         \<and> router_u (snd (handleMessage_WSUser u (Unmarshalled m))) =
             (if fst (Match p m) then router_u u else Route (router_u u) m)"
  using assms
  by (cases "Match p m")
    (auto simp: handleMessage_WSUser_def log_event_u_def Let_def
      split: option.splits bool.splits)

lemma handleMessage_WSUser_nil:
  assumes "promise_u u = Some p"
  shows "fst (handleMessage_WSUser u UnmarshalNil) = Panics nil_dereference
         \<and> promise_u (snd (handleMessage_WSUser u UnmarshalNil)) = Some p
         \<and> router_u (snd (handleMessage_WSUser u UnmarshalNil)) = router_u u"
  using assms by (simp add: handleMessage_WSUser_def log_event_u_def Let_def)

lemma handleMessage_FWSMarket_unzipped:
  assumes "promise_f v = Some p" and "\<not> (isCompressed (data_f ff) \<and> unzipPayload ff = None)"
  shows "case unmarshal_f ff of
           UnmarshalError \<Rightarrow> handleMessage_FWSMarket v ff = (Returns (), v)
         | UnmarshalNil \<Rightarrow>
             fst (handleMessage_FWSMarket v ff) = Panics nil_dereference
             \<and> promise_f (snd (handleMessage_FWSMarket v ff)) = Some p
             \<and> router_f (snd (handleMessage_FWSMarket v ff)) = router_f v
         | Unmarshalled m \<Rightarrow>
             fst (handleMessage_FWSMarket v ff) = Returns ()
             \<and> promise_f (snd (handleMessage_FWSMarket v ff)) =
                 Some (case Match p m of
                         (True, None) \<Rightarrow> Resolve p m
                       | (True, Some e) \<Rightarrow> Reject p e
                       | (False, _) \<Rightarrow> p)
             \<and> router_f (snd (handleMessage_FWSMarket v ff)) =
                 (if fst (Match p m) then router_f v else Route (router_f v) m)"
proof (cases "unmarshal_f ff")
  case UnmarshalError
  with assms show ?thesis by (simp add: handleMessage_FWSMarket_def)
next
  case UnmarshalNil
  with assms show ?thesis
    by (auto simp: handleMessage_FWSMarket_def log_event_f_def Let_def)
next
  case (Unmarshalled m)
  with assms show ?thesis
    by (cases "Match p m")
      (auto simp: handleMessage_FWSMarket_def log_event_f_def Let_def
        split: option.splits bool.splits)
qed

lemma handleMessage_json:
  assumes "isJSONMessage (data fr)"
  shows "router (handleMessage w fr) = router w
         \<and> promisesMap (handleMessage w fr) =
             (case as_json fr of
                None \<Rightarrow> promisesMap w
              | Some r \<Rightarrow>
                  (case promisesMap w (ID r) of
                     None \<Rightarrow> promisesMap w
                   | Some q \<Rightarrow>
                       (promisesMap w)(ID r \<mapsto>
                          (if fst (Match q r) then Resolve q r
                           else Reject q (CodeMsgError (Code r) (Msg r))))))"
proof (cases "as_json fr")
  case None
  with assms show ?thesis by (simp add: handleMessage_def handleJSONMessage_def)
next
  case (Some r)
  show ?thesis
  proof (cases "promisesMap w (ID r)")
    case None
    with Some assms show ?thesis
      by (simp add: handleMessage_def handleJSONMessage_def log_event_def Let_def)
  next
    case (Some q)
    with \<open>as_json fr = Some r\<close> assms show ?thesis
      by (cases "Match q r")
        (simp add: handleMessage_def handleJSONMessage_def log_event_def Let_def)
  qed
qed

lemma handleMessage_not_json:
  assumes "\<not> isJSONMessage (data fr)"
  shows "promisesMap (handleMessage w fr) = promisesMap w
         \<and> router (handleMessage w fr) =
             (case as_proto fr of None \<Rightarrow> router w | Some pm \<Rightarrow> Route (router w) pm)"
  using assms by (simp add: handleMessage_def handleProtoMessage_def split: option.splits)

text \<open>
  C2, as the code has it.  In the futures user session and in the futures market session
  (\<open>handleMessage\<close>) a frame that decodes to a message is offered to the pending promise
  first: the promise is resolved when its predicate accepts the frame without an error,
  rejected when the predicate accepts the frame with an error, and left as it is when the
  predicate does not accept the frame; the frame goes to the router exactly when the
  promise did not accept it.  A frame that cannot be decoded (or, in the market session,
  decompressed) changes nothing.  A frame that decodes to the nil message (the JSON literal
  \<open>null\<close>) makes the predicate panic in the read loop; the promise stays unsettled and the
  router is not offered the frame.

  In the spot market session a JSON frame (\<open>handleJSONMessage\<close>) is correlated by its id:
  the promise stored under that id is resolved when its predicate accepts the reply and
  rejected with the reply's code and message when it does not; a reply that cannot be
  decoded, or under whose id no promise is stored, changes no promise; and no JSON frame
  ever reaches the router.  The router is offered exactly the frames that are not JSON and
  that decode as protobuf messages, and these settle no promise.
\<close>

theorem C2_predicate_decides_settlement:
  "(promise_u u = Some p \<longrightarrow>
      fst (handleMessage_WSUser u (Unmarshalled m)) = Returns ()
      \<and> promise_u (snd (handleMessage_WSUser u (Unmarshalled m))) =
          Some (case Match p m of
                  (True, None) \<Rightarrow> Resolve p m
                | (True, Some e) \<Rightarrow> Reject p e
                | (False, _) \<Rightarrow> p)
      \<and> router_u (snd (handleMessage_WSUser u (Unmarshalled m))) =
          (if fst (Match p m) then router_u u else Route (router_u u) m)
      \<and> fst (handleMessage_WSUser u UnmarshalNil) = Panics nil_dereference
      \<and> promise_u (snd (handleMessage_WSUser u UnmarshalNil)) = Some p
      \<and> router_u (snd (handleMessage_WSUser u UnmarshalNil)) = router_u u)
   \<and> handleMessage_WSUser u UnmarshalError = (Returns (), u)
   \<and> (promise_f v = Some p' \<and> \<not> (isCompressed (data_f ff) \<and> unzipPayload ff = None) \<longrightarrow>
      (case unmarshal_f ff of
         UnmarshalError \<Rightarrow> handleMessage_FWSMarket v ff = (Returns (), v)
       | UnmarshalNil \<Rightarrow>
           fst (handleMessage_FWSMarket v ff) = Panics nil_dereference
           \<and> promise_f (snd (handleMessage_FWSMarket v ff)) = Some p'
           \<and> router_f (snd (handleMessage_FWSMarket v ff)) = router_f v
       | Unmarshalled m' \<Rightarrow>
           fst (handleMessage_FWSMarket v ff) = Returns ()
           \<and> promise_f (snd (handleMessage_FWSMarket v ff)) =
               Some (case Match p' m' of
                       (True, None) \<Rightarrow> Resolve p' m'
                     | (True, Some e) \<Rightarrow> Reject p' e
                     | (False, _) \<Rightarrow> p')
           \<and> router_f (snd (handleMessage_FWSMarket v ff)) =
               (if fst (Match p' m') then router_f v else Route (router_f v) m')))
   \<and> (isCompressed (data_f ff) \<and> unzipPayload ff = None \<longrightarrow>
      handleMessage_FWSMarket v ff = (Returns (), v))
   \<and> (isJSONMessage (data fr) \<longrightarrow>
      router (handleMessage w fr) = router w
      \<and> promisesMap (handleMessage w fr) =
          (case as_json fr of
             None \<Rightarrow> promisesMap w
           | Some r \<Rightarrow>
               (case promisesMap w (ID r) of
                  None \<Rightarrow> promisesMap w
                | Some q \<Rightarrow>
                    (promisesMap w)(ID r \<mapsto>
                       (if fst (Match q r) then Resolve q r
                        else Reject q (CodeMsgError (Code r) (Msg r)))))))
   \<and> (\<not> isJSONMessage (data fr) \<longrightarrow>
      promisesMap (handleMessage w fr) = promisesMap w
      \<and> router (handleMessage w fr) =
          (case as_proto fr of None \<Rightarrow> router w | Some pm \<Rightarrow> Route (router w) pm))"
proof (intro conjI impI)
  show "handleMessage_WSUser u UnmarshalError = (Returns (), u)"
    by (simp add: handleMessage_WSUser_def)
next
  assume "isCompressed (data_f ff) \<and> unzipPayload ff = None"
  then show "handleMessage_FWSMarket v ff = (Returns (), v)"
    by (simp add: handleMessage_FWSMarket_def)
next
  assume "promise_f v = Some p' \<and> \<not> (isCompressed (data_f ff) \<and> unzipPayload ff = None)"
  then show "case unmarshal_f ff of
         UnmarshalError \<Rightarrow> handleMessage_FWSMarket v ff = (Returns (), v)
       | UnmarshalNil \<Rightarrow>
           fst (handleMessage_FWSMarket v ff) = Panics nil_dereference
           \<and> promise_f (snd (handleMessage_FWSMarket v ff)) = Some p'
           \<and> router_f (snd (handleMessage_FWSMarket v ff)) = router_f v
       | Unmarshalled m' \<Rightarrow>
           fst (handleMessage_FWSMarket v ff) = Returns ()
           \<and> promise_f (snd (handleMessage_FWSMarket v ff)) =
               Some (case Match p' m' of
                       (True, None) \<Rightarrow> Resolve p' m'
                     | (True, Some e) \<Rightarrow> Reject p' e
                     | (False, _) \<Rightarrow> p')
           \<and> router_f (snd (handleMessage_FWSMarket v ff)) =
               (if fst (Match p' m') then router_f v else Route (router_f v) m')"
    using handleMessage_FWSMarket_unzipped [of v p' ff] by blast
qed (simp_all add: handleMessage_WSUser_message handleMessage_WSUser_nil handleMessage_json
    handleMessage_not_json)

lemma isJSONMessage_nack: "isJSONMessage (data nack_frame)"
  by (simp add: isJSONMessage_def nack_frame_def)

text \<open>
  A push frame arrives while the ping of either futures session is pending, a frame with a
  broken gzip payload arrives in the market session, and the spot session gets the refusal
  of a pending subscribe request and a protobuf push frame.
\<close>

theorem C2_predicate_decides_settlement_witness:
  "promise_u (store_promise_u user_session (NewPromise (MatchFunc_u pingRequest_u)))
     = Some (NewPromise (MatchFunc_u pingRequest_u))
   \<and> router_u (snd (handleMessage_WSUser
        (store_promise_u user_session (NewPromise (MatchFunc_u pingRequest_u)))
        (Unmarshalled asset_msg)))
     = Route (router_u user_session) asset_msg
   \<and> promise_f market_session = Some (NewPromise pingMatchFunc_f)
   \<and> \<not> isCompressed (data_f ticker_frame)
   \<and> router_f (snd (handleMessage_FWSMarket market_session ticker_frame))
     = Route (router_f market_session) ticker_msg
   \<and> promise_f (snd (handleMessage_FWSMarket market_session ticker_frame))
     = Some (NewPromise pingMatchFunc_f)
   \<and> isCompressed (data_f broken_gzip_frame) \<and> unzipPayload broken_gzip_frame = None
   \<and> handleMessage_FWSMarket market_session broken_gzip_frame = (Returns (), market_session)
   \<and> isJSONMessage (data nack_frame)
   \<and> router (handleMessage (store_promise connected_session 1 (NewPromise (matches depth_sub)))
        nack_frame)
     = router connected_session
   \<and> \<not> isJSONMessage (data push_frame)
   \<and> router (handleMessage connected_session push_frame)
     = Route (router connected_session) depth_stream"
proof -
  have user: "promise_u (store_promise_u user_session (NewPromise (MatchFunc_u pingRequest_u)))
      = Some (NewPromise (MatchFunc_u pingRequest_u))"
    "router_u (store_promise_u user_session (NewPromise (MatchFunc_u pingRequest_u)))
      = router_u user_session"
    "\<not> fst (Match (NewPromise (MatchFunc_u pingRequest_u)) asset_msg)"
    by (simp_all add: store_promise_u_def log_event_u_def NewPromise_def Match_def
        asset_msg_def)
  have market: "promise_f market_session = Some (NewPromise pingMatchFunc_f)"
    "\<not> isCompressed (data_f ticker_frame)"
    "unmarshal_f ticker_frame = Unmarshalled ticker_msg"
    "Match (NewPromise pingMatchFunc_f) ticker_msg = (False, None)"
    by (simp_all add: market_session_def isCompressed_def ticker_frame_def NewPromise_def
        Match_def pingMatchFunc_f_def ticker_msg_def)
  have gzip: "isCompressed (data_f broken_gzip_frame)" "unzipPayload broken_gzip_frame = None"
    by (simp_all add: isCompressed_def broken_gzip_frame_def)
  have spot: "router (store_promise connected_session 1 (NewPromise (matches depth_sub)))
      = router connected_session"
    "\<not> isJSONMessage (data push_frame)" "as_proto push_frame = Some depth_stream"
    by (simp_all add: store_promise_def log_event_def isJSONMessage_def push_frame_def)
  from C2_predicate_decides_settlement
      [of "store_promise_u user_session (NewPromise (MatchFunc_u pingRequest_u))"
          "NewPromise (MatchFunc_u pingRequest_u)" asset_msg
          market_session "NewPromise pingMatchFunc_f" ticker_frame nack_frame
          "store_promise connected_session 1 (NewPromise (matches depth_sub))"]
    user market isJSONMessage_nack spot(1)
  have first: "router_u (snd (handleMessage_WSUser
        (store_promise_u user_session (NewPromise (MatchFunc_u pingRequest_u)))
        (Unmarshalled asset_msg)))
     = Route (router_u user_session) asset_msg"
    "router_f (snd (handleMessage_FWSMarket market_session ticker_frame))
     = Route (router_f market_session) ticker_msg"
    "promise_f (snd (handleMessage_FWSMarket market_session ticker_frame))
     = Some (NewPromise pingMatchFunc_f)"
    "router (handleMessage (store_promise connected_session 1 (NewPromise (matches depth_sub)))
        nack_frame)
     = router connected_session"
    by simp_all
  from C2_predicate_decides_settlement
      [of "store_promise_u user_session (NewPromise (MatchFunc_u pingRequest_u))"
          "NewPromise (MatchFunc_u pingRequest_u)" asset_msg
          market_session "NewPromise pingMatchFunc_f" broken_gzip_frame push_frame
          connected_session]
    gzip spot(2,3)
  have second: "handleMessage_FWSMarket market_session broken_gzip_frame
       = (Returns (), market_session)"
    "router (handleMessage connected_session push_frame)
       = Route (router connected_session) depth_stream"
    by simp_all
  from user(1) market(1,2) gzip isJSONMessage_nack spot(2) first second
  show ?thesis by simp
qed

text \<open>
  The claim as written fails in the spot market session.  The subscribe request with id 1
  is pending and the server answers it with a refusal: the predicate of the promise does not
  accept the reply, yet the promise is rejected with this reply, and the router is not
  offered the frame.
\<close>

theorem C2_spot_rejects_unaccepted_counterexample:
  "fst (Match (NewPromise (matches depth_sub))
          \<lparr>ID = 1, Code = 0, Msg = ''Not Subscribed successfully!''\<rparr>) = False
   \<and> map_option errCh
       (promisesMap
          (handleMessage (store_promise connected_session 1 (NewPromise (matches depth_sub)))
             nack_frame) 1)
     = Some (Some (CodeMsgError 0 ''Not Subscribed successfully!''))
   \<and> map_option once
       (promisesMap
          (handleMessage (store_promise connected_session 1 (NewPromise (matches depth_sub)))
             nack_frame) 1)
     = Some True
   \<and> routed (router
       (handleMessage (store_promise connected_session 1 (NewPromise (matches depth_sub)))
          nack_frame)) = []"
  by (simp add: handleMessage_def handleJSONMessage_def isJSONMessage_def nack_frame_def
      store_promise_def log_event_def NewPromise_def Match_def Reject_def depth_sub_def
      depth_stream_def connected_session_simp fresh_session_def Let_def)

lemma upt_from_1: "[1..<Suc (Suc n)] = 1 # map Suc [1..<Suc n]"
proof -
  have "[1..<Suc (Suc n)] = 1 # [Suc 1..<Suc (Suc n)]"
    by (rule upt_conv_Cons) simp
  also have "[Suc 1..<Suc (Suc n)] = map Suc [1..<Suc n]"
    by (rule map_Suc_upt [symmetric])
  finally show ?thesis .
qed

lemma createIDs_step:
  "fst (createIDs (Suc n) w)
     = (counter w + 1) # fst (createIDs n (w\<lparr>counter := counter w + 1\<rparr>))"
  by (simp add: createID_def Inc_def Let_def split: prod.splits)

lemma createIDs_fst:
  "fst (createIDs n w) = map (\<lambda>k. counter w + of_nat k) [1..<Suc n]"
proof (induction n arbitrary: w)
  case 0
  show ?case by simp
next
  case (Suc n)
  have "fst (createIDs n (w\<lparr>counter := counter w + 1\<rparr>))
      = map (\<lambda>k. counter (w\<lparr>counter := counter w + 1\<rparr>) + of_nat k) [1..<Suc n]"
    by (rule Suc.IH)
  then have "fst (createIDs n (w\<lparr>counter := counter w + 1\<rparr>))
      = map (\<lambda>k. counter w + 1 + of_nat k) [1..<Suc n]"
    by (simp del: upt_Suc)
  with createIDs_step [of n w] have "fst (createIDs (Suc n) w)
      = (counter w + 1) # map (\<lambda>k. counter w + 1 + of_nat k) [1..<Suc n]"
    by (simp only:)
  also have "map (\<lambda>k. counter w + 1 + of_nat k) [1..<Suc n]
      = map (\<lambda>k. counter w + of_nat k) (map Suc [1..<Suc n])"
    by (simp only: map_map o_def of_nat_Suc add.assoc)
  finally show ?case
    by (simp only: upt_from_1 list.map of_nat_1)
qed

lemma unat_of_nat_word64: "k < 2 ^ 64 \<Longrightarrow> unat (of_nat k :: 64 word) = k"
  by (simp add: unat_of_nat)

lemma promisesMap_other_id:
  "as_json fr = Some r \<Longrightarrow> i \<noteq> ID r \<Longrightarrow> promisesMap (handleMessage w fr) i = promisesMap w i"
  by (simp add: handleMessage_def handleJSONMessage_def handleProtoMessage_def log_event_def
      Let_def split: option.splits prod.splits)

text \<open>
  C10, as the code has it.  Counting from a new counter, the \<open>k\<close>-th correlation id is the
  number \<open>k\<close> as long as \<open>k < 2 ^ 64\<close>: the first is 1, each is one more than the one
  before, and none of them is the reserved id 0.  A reply that carries the reserved id
  therefore leaves the promise stored under any of these ids untouched.
\<close>

theorem C10_ids_positive_until_wrap:
  assumes "counter w = NewCounter" and "n < 2 ^ 64"
  shows "length (fst (createIDs n w)) = n
         \<and> (\<forall>k < n. unat (fst (createIDs n w) ! k) = Suc k
                  \<and> fst (createIDs n w) ! k \<noteq> reservedPongID)
         \<and> (\<forall>i \<in> set (fst (createIDs n w)).
               as_json fr = Some r \<and> ID r = reservedPongID
               \<longrightarrow> promisesMap (handleMessage w' fr) i = promisesMap w' i)"
proof -
  have ids: "fst (createIDs n w) = map of_nat [1..<Suc n]"
    using assms(1) by (simp add: createIDs_fst NewCounter_def)
  have nth: "unat (fst (createIDs n w) ! k) = Suc k" if "k < n" for k
  proof -
    from that have "fst (createIDs n w) ! k = (of_nat (Suc k) :: 64 word)"
      unfolding ids by (simp del: upt_Suc of_nat_Suc add: nth_map_upt)
    moreover from that assms(2) have "Suc k < 2 ^ 64" by simp
    ultimately show ?thesis
      by (simp only: unat_of_nat_word64)
  qed
  have nz: "fst (createIDs n w) ! k \<noteq> reservedPongID" if "k < n" for k
  proof
    assume "fst (createIDs n w) ! k = reservedPongID"
    then have "unat (fst (createIDs n w) ! k) = 0"
      by (simp add: reservedPongID_def)
    with nth [OF that] show False by simp
  qed
  have other: "promisesMap (handleMessage w' fr) i = promisesMap w' i"
    if "i \<in> set (fst (createIDs n w))" and "as_json fr = Some r" and "ID r = reservedPongID"
    for i
  proof -
    have "length (fst (createIDs n w)) = n"
      unfolding ids by simp
    with that(1) obtain k where "k < n" and "i = fst (createIDs n w) ! k"
      by (metis in_set_conv_nth)
    with nz have "i \<noteq> ID r" using that(3) by auto
    with that(2) show ?thesis by (simp add: promisesMap_other_id)
  qed
  show ?thesis
    using nth nz other by (simp add: ids del: upt_Suc)
qed

theorem C10_ids_positive_until_wrap_witness:
  "counter fresh_session = NewCounter \<and> (3::nat) < 2 ^ 64
   \<and> fst (createIDs 3 fresh_session) = [1, 2, 3]
   \<and> reservedPongID \<notin> set (fst (createIDs 3 fresh_session))
   \<and> promisesMap (handleMessage subscribed_session pong_frame) 1
       = promisesMap subscribed_session 1"
proof -
  have c: "counter fresh_session = NewCounter"
    by (simp add: fresh_session_def NewCounter_def)
  have n: "(3::nat) < 2 ^ 64" by simp
  have ids: "fst (createIDs 3 fresh_session) = [1, 2, 3]"
    by (simp add: numeral_3_eq_3 createID_def Inc_def fresh_session_def Let_def)
  have pong: "as_json pong_frame = Some \<lparr>ID = 0, Code = 0, Msg = ''PONG''\<rparr>
      \<and> ID \<lparr>ID = 0, Code = 0, Msg = ''PONG''\<rparr> = reservedPongID"
    by (simp add: pong_frame_def reservedPongID_def)
  from C10_ids_positive_until_wrap [OF c n, of pong_frame
      "\<lparr>ID = 0, Code = 0, Msg = ''PONG''\<rparr>" subscribed_session] pong ids
  show ?thesis using c by (simp add: reservedPongID_def)
qed

text \<open>
  The claim as written, for every id produced, fails when the counter wraps around: the
  \<open>2 ^ 64\<close>-th id a session produces is the reserved id 0.
\<close>

theorem C10_wrap_around_counterexample:
  "last (fst (createIDs (2 ^ 64) fresh_session)) = reservedPongID
   \<and> fst (createID (fresh_session\<lparr>counter := 18446744073709551615\<rparr>)) = reservedPongID"
proof -
  have "fst (createIDs (2 ^ 64) fresh_session) = map of_nat [1..<Suc (2 ^ 64)]"
    by (simp add: createIDs_fst fresh_session_def del: upt_Suc)
  then have "last (fst (createIDs (2 ^ 64) fresh_session)) = (of_nat (2 ^ 64) :: 64 word)"
    by (simp add: last_map)
  moreover have "(of_nat (2 ^ 64) :: 64 word) = 0"
    by simp
  moreover have "fst (createID (fresh_session\<lparr>counter := 18446744073709551615\<rparr>)) = 0"
    by (simp add: createID_def Inc_def)
  ultimately show ?thesis
    by (simp add: reservedPongID_def)
qed


section \<open>Requests in flight\<close>

lemma promisesMap_handleMessage:
  "promisesMap (handleMessage w fr) i =
     (if isJSONMessage (data fr) \<and> map_option ID (as_json fr) = Some i
      then map_option (\<lambda>p. if fst (Match p (the (as_json fr))) then Resolve p (the (as_json fr))
                            else Reject p (CodeMsgError (Code (the (as_json fr))) (Msg (the (as_json fr)))))
             (promisesMap w i)
      else promisesMap w i)"
  by (auto simp: handleMessage_def handleJSONMessage_def handleProtoMessage_def log_event_def
      Let_def split: option.splits prod.splits)

lemma promisesMap_settled:
  "promisesMap w i = Some p \<Longrightarrow> once p \<Longrightarrow> promisesMap (foldl handleMessage w frs) i = Some p"
proof (induction frs arbitrary: w)
  case Nil
  then show ?case by simp
next
  case (Cons fr frs)
  from Cons.prems have "promisesMap (handleMessage w fr) i = Some p"
    by (simp add: promisesMap_handleMessage Resolve_def Reject_def)
  with Cons.IH Cons.prems(2) show ?case by simp
qed

lemma promisesMap_after_inbound:
  "promisesMap w i = Some (NewPromise f) \<Longrightarrow>
     promisesMap (foldl handleMessage w frs) i = Some (awaited_promise i f frs)"
proof (induction frs arbitrary: w)
  case Nil
  then show ?case by (simp add: awaited_promise_def)
next
  case (Cons fr frs)
  show ?case
  proof (cases "isJSONMessage (data fr) \<and> map_option ID (as_json fr) = Some i")
    case True
    then obtain m where m: "as_json fr = Some m" "ID m = i" by auto
    let ?p = "if fst (f m) then Resolve (NewPromise f) m
              else Reject (NewPromise f) (CodeMsgError (Code m) (Msg m))"
    from True m Cons.prems have step: "promisesMap (handleMessage w fr) i = Some ?p"
      by (simp add: promisesMap_handleMessage Match_def NewPromise_def)
    have "once ?p" by (simp add: Resolve_def Reject_def NewPromise_def)
    with step have "promisesMap (foldl handleMessage (handleMessage w fr) frs) i = Some ?p"
      by (rule promisesMap_settled)
    with True m show ?thesis by (simp add: awaited_promise_def)
  next
    case False
    then have "promisesMap (handleMessage w fr) i = promisesMap w i"
      by (auto simp: promisesMap_handleMessage)
    with Cons.prems have "promisesMap (handleMessage w fr) i = Some (NewPromise f)"
      by simp
    from Cons.IH [OF this] False show ?thesis by (auto simp: awaited_promise_def)
  qed
qed

lemma handleMessage_frame:
  "client (handleMessage w fr) = client w \<and> activeSubs (handleMessage w fr) = activeSubs w
   \<and> counter (handleMessage w fr) = counter w
   \<and> handlers (router (handleMessage w fr)) = handlers (router w)
   \<and> caller_actions (trace (handleMessage w fr)) = caller_actions (trace w)"
  by (auto simp: handleMessage_def handleJSONMessage_def handleProtoMessage_def log_event_def
      caller_actions_def Route_def Let_def split: option.splits prod.splits)

lemma inbound_frame:
  "client (foldl handleMessage w frs) = client w
   \<and> activeSubs (foldl handleMessage w frs) = activeSubs w
   \<and> counter (foldl handleMessage w frs) = counter w
   \<and> handlers (router (foldl handleMessage w frs)) = handlers (router w)
   \<and> caller_actions (trace (foldl handleMessage w frs)) = caller_actions (trace w)"
  by (induction frs arbitrary: w) (simp_all add: handleMessage_frame)


lemma Await_value:
  assumes "Await p ctx pick = Some (Inr m, p')"
  shows "resCh p = Some m"
proof -
  from assms have ne: "await_ready p ctx \<noteq> []"
    and el: "(Inr m, p') = await_ready p ctx ! (pick mod length (await_ready p ctx))"
    by (auto simp: Await_def Let_def split: if_splits)
  from ne have "pick mod length (await_ready p ctx) < length (await_ready p ctx)" by simp
  with el have "(Inr m, p') \<in> set (await_ready p ctx)" by (metis nth_mem)
  then show ?thesis
    by (auto simp: await_ready_def split: option.splits)
qed

lemma Await_blocks: "Await p ctx pick = None \<longleftrightarrow> resCh p = None \<and> errCh p = None \<and> ctx = None"
  by (auto simp: Await_def await_ready_def Let_def split: option.splits)



lemma awaited_resCh:
  "resCh (awaited_promise i f frs) = Some m \<longleftrightarrow> first_reply i frs = Some m \<and> fst (f m)"
  by (auto simp: awaited_promise_def NewPromise_def Resolve_def Reject_def split: option.splits)

lemma client_store_promise: "client (store_promise w i p) = client w"
  by (simp add: store_promise_def log_event_def)

lemma WriteMessage_nil:
  "conn c = None \<Longrightarrow>
     WriteMessage c fr dl wr = (Panics nil_dereference, c)"
  by (simp add: WriteMessage_def)

lemma WriteMessage_deadline:
  "conn c = Some cn \<Longrightarrow>
     WriteMessage c fr (Some e) wr =
       (Returns (Some (Wrapped ErrWriteTimeout e)), errorf c ''set write deadline failed: %v'')"
  by (simp add: WriteMessage_def)

lemma WriteMessage_failed:
  "conn c = Some cn \<Longrightarrow>
     WriteMessage c fr None (Some e) =
       (Returns (Some (Wrapped ErrWriteFailed e)), errorf c ''write failed: %v'')"
  by (simp add: WriteMessage_def)

lemma WriteMessage_ok:
  "conn c = Some cn \<Longrightarrow>
     WriteMessage c fr None None =
       (Returns None, c\<lparr>conn := Some (cn\<lparr>written := written cn @ [fr]\<rparr>)\<rparr>)"
  by (simp add: WriteMessage_def)

lemma promisesMap_stored:
  "promisesMap (foldl handleMessage
      (log_event (Caller, Awaiting) ((store_promise w i (NewPromise f))\<lparr>client := c\<rparr>)) frs) i
   = Some (awaited_promise i f frs)"
  by (rule promisesMap_after_inbound) (simp add: store_promise_def log_event_def)

lemma sendAndAwaitResponse_result:
  "fst (sendAndAwaitResponse w req env) =
     (case Message req of
        Inl e \<Rightarrow> Returns (Some (errFactory ''sendAndAwaitResponse'' (Some ErrWSWrite) (Some e)))
      | Inr fr \<Rightarrow>
          (case conn (client w) of
             None \<Rightarrow> Panics nil_dereference
           | Some cn \<Rightarrow>
               (case deadline_answer env of
                  Some e \<Rightarrow> Returns (Some (errFactory ''sendAndAwaitResponse'' (Some ErrWSWrite)
                              (Some (Wrapped ErrWriteTimeout e))))
                | None \<Rightarrow>
                    (case write_answer env of
                       Some e \<Rightarrow> Returns (Some (errFactory ''sendAndAwaitResponse'' (Some ErrWSWrite)
                                   (Some (Wrapped ErrWriteFailed e))))
                     | None \<Rightarrow>
                         (case Await (awaited_promise (ID_req req) (MatchFunc req) (inbound env))
                                  (ctx_done env) (select_pick env) of
                            None \<Rightarrow> Blocks
                          | Some (Inr m, p') \<Rightarrow> Returns None
                          | Some (Inl perr, p') \<Rightarrow>
                              (case Source perr of
                                 FromContext \<Rightarrow>
                                   Returns (Some (WithMessage
                                     (errFactory ''sendAndAwaitResponse'' (Some ErrWSMessageTimeout) None)
                                     (TextOf (Err perr))))
                               | FromServer \<Rightarrow>
                                   Returns (Some (WithMessage
                                     (errFactory ''sendAndAwaitResponse'' (Some ErrWSServerError) None)
                                     (TextOf (Err perr))))
                               | FromUnknown \<Rightarrow> Panics ''unreachable''))))))"
proof (cases "Message req")
  case (Inl e)
  then show ?thesis by (simp add: sendAndAwaitResponse_def Let_def)
next
  case msg: (Inr fr)
  show ?thesis
  proof (cases "conn (client w)")
    case None
    with msg show ?thesis
      by (simp add: sendAndAwaitResponse_def Let_def client_store_promise WriteMessage_nil)
  next
    case (Some cn)
    show ?thesis
    proof (cases "deadline_answer env")
      case dl: (Some e)
      with msg Some show ?thesis
        by (simp add: sendAndAwaitResponse_def Let_def client_store_promise
            WriteMessage_deadline [OF Some])
    next
      case dl: None
      show ?thesis
      proof (cases "write_answer env")
        case wr: (Some e)
        with msg Some dl show ?thesis
          by (simp add: sendAndAwaitResponse_def Let_def client_store_promise
              WriteMessage_failed [OF Some])
      next
        case wr: None
        show ?thesis
        proof (cases "Await (awaited_promise (ID_req req) (MatchFunc req) (inbound env))
                        (ctx_done env) (select_pick env)")
          case aw: None
          with msg Some dl wr show ?thesis
            by (simp add: sendAndAwaitResponse_def Let_def client_store_promise
                WriteMessage_ok [OF Some] promisesMap_stored)
        next
          case aw: (Some rp)
          obtain r p' where rp: "rp = (r, p')" by (cases rp)
          show ?thesis
          proof (cases r)
            case val: (Inr m)
            with msg Some dl wr aw rp show ?thesis
              by (simp add: sendAndAwaitResponse_def Let_def client_store_promise
                  WriteMessage_ok [OF Some] promisesMap_stored)
          next
            case err: (Inl perr)
            with msg Some dl wr aw rp show ?thesis
              by (cases "Source perr")
                (simp_all add: sendAndAwaitResponse_def Let_def client_store_promise
                  WriteMessage_ok [OF Some] promisesMap_stored)
          qed
        qed
      qed
    qed
  qed
qed




lemma Await_resolved:
  "Await (Resolve (NewPromise f) m) None pick = Some (Inr m, (NewPromise f)\<lparr>once := True\<rparr>)"
  by (simp add: Await_def await_ready_def NewPromise_def Resolve_def)









lemma sendAndAwaitResponse_success:
  assumes "fst (sendAndAwaitResponse w req env) = Returns None"
  shows "\<exists>m. first_reply (ID_req req) (inbound env) = Some m \<and> fst (MatchFunc req m)"
  using assms unfolding sendAndAwaitResponse_result
  by (auto split: sum.splits option.splits PromiseErrSource.splits
      dest!: Await_value simp: awaited_resCh)


lemma as_json_nack:
  "as_json nack_frame = Some \<lparr>ID = 1, Code = 0, Msg = ''Not Subscribed successfully!''\<rparr>"
  by (simp add: nack_frame_def)

lemma first_reply_nack:
  "first_reply 1 [nack_frame] = Some \<lparr>ID = 1, Code = 0, Msg = ''Not Subscribed successfully!''\<rparr>"
  by (simp add: isJSONMessage_nack as_json_nack)







section \<open>Subscribing: the limit, the acknowledgment, the locks\<close>

lemma frame_store_promise:
  "client (store_promise w i p) = client w" "activeSubs (store_promise w i p) = activeSubs w"
  "counter (store_promise w i p) = counter w" "router (store_promise w i p) = router w"
  "caller_actions (trace (store_promise w i p))
     = caller_actions (trace w) @ [Lock PromisesMu, Unlock PromisesMu]"
  by (simp_all add: store_promise_def log_event_def caller_actions_def)

lemma frame_drop_promise:
  "client (drop_promise w i) = client w" "activeSubs (drop_promise w i) = activeSubs w"
  "counter (drop_promise w i) = counter w" "router (drop_promise w i) = router w"
  "caller_actions (trace (drop_promise w i))
     = caller_actions (trace w) @ [Lock PromisesMu, Unlock PromisesMu]"
  by (simp_all add: drop_promise_def log_event_def caller_actions_def)

lemma frame_log_event:
  "client (log_event e w) = client w" "activeSubs (log_event e w) = activeSubs w"
  "counter (log_event e w) = counter w" "router (log_event e w) = router w"
  "caller_actions (trace (log_event (Caller, a) w)) = caller_actions (trace w) @ [a]"
  by (simp_all add: log_event_def caller_actions_def)

lemmas frame_inbound = inbound_frame [THEN conjunct1]
  inbound_frame [THEN conjunct2, THEN conjunct1]
  inbound_frame [THEN conjunct2, THEN conjunct2, THEN conjunct1]
  inbound_frame [THEN conjunct2, THEN conjunct2, THEN conjunct2, THEN conjunct1]
  inbound_frame [THEN conjunct2, THEN conjunct2, THEN conjunct2, THEN conjunct2]

lemmas frame_simps = frame_store_promise frame_drop_promise frame_log_event frame_inbound

lemma sendAndAwaitResponse_frame:
  "activeSubs (snd (sendAndAwaitResponse w req env)) = activeSubs w
   \<and> counter (snd (sendAndAwaitResponse w req env)) = counter w
   \<and> handlers (router (snd (sendAndAwaitResponse w req env))) = handlers (router w)
   \<and> caller_actions (trace (snd (sendAndAwaitResponse w req env)))
       \<in> (\<lambda>X. caller_actions (trace w) @ X) ` set await_shapes"
proof (cases "Message req")
  case (Inl e)
  then show ?thesis
    by (simp add: sendAndAwaitResponse_def Let_def frame_simps await_shapes_def)
next
  case msg: (Inr fr)
  show ?thesis
  proof (cases "WriteMessage (client (store_promise w (ID_req req) (NewPromise (MatchFunc req))))
                  fr (deadline_answer env) (write_answer env)")
    case wm: (Pair r c)
    show ?thesis
    proof (cases r)
      case (Panics t)
      with msg wm show ?thesis
        by (simp add: sendAndAwaitResponse_def Let_def frame_simps await_shapes_def)
    next
      case Blocks
      with msg wm show ?thesis
        by (simp add: sendAndAwaitResponse_def Let_def frame_simps await_shapes_def)
    next
      case (Returns eo)
      show ?thesis
      proof (cases eo)
        case (Some e)
        with msg wm Returns show ?thesis
          by (simp add: sendAndAwaitResponse_def Let_def frame_simps await_shapes_def)
      next
        case None
        let ?w3 = "foldl handleMessage
            (log_event (Caller, Awaiting)
               ((store_promise w (ID_req req) (NewPromise (MatchFunc req)))\<lparr>client := c\<rparr>))
            (inbound env)"
        let ?p = "case promisesMap ?w3 (ID_req req) of
                    Some q \<Rightarrow> q | None \<Rightarrow> NewPromise (MatchFunc req)"
        have tr: "caller_actions (trace ((store_promise w (ID_req req) (NewPromise (MatchFunc req)))
                    \<lparr>client := c\<rparr>))
                  = caller_actions (trace w) @ [Lock PromisesMu, Unlock PromisesMu]"
          using frame_store_promise(5) [of w "ID_req req" "NewPromise (MatchFunc req)"] by simp
        have fr3: "activeSubs ?w3 = activeSubs w" "counter ?w3 = counter w"
          "handlers (router ?w3) = handlers (router w)"
          "caller_actions (trace ?w3)
             = caller_actions (trace w) @ [Lock PromisesMu, Unlock PromisesMu, Awaiting]"
          by (simp_all add: frame_simps tr)
        show ?thesis
        proof (cases "Await ?p (ctx_done env) (select_pick env)")
          case aw: None
          with msg wm Returns None fr3 show ?thesis
            by (simp add: sendAndAwaitResponse_def Let_def await_shapes_def)
        next
          case aw: (Some rp)
          obtain v p' where rp: "rp = (v, p')" by (cases rp)
          show ?thesis
          proof (cases v)
            case val: (Inr m)
            with msg wm Returns None fr3 aw rp show ?thesis
              by (simp add: sendAndAwaitResponse_def Let_def await_shapes_def frame_drop_promise)
          next
            case err: (Inl perr)
            with msg wm Returns None fr3 aw rp show ?thesis
              by (cases "Source perr")
                (simp_all add: sendAndAwaitResponse_def Let_def await_shapes_def
                  frame_drop_promise)
          qed
        qed
      qed
    qed
  qed
qed


lemma Subscribe_unfolded:
  assumes na: "activeSubs w (sid s) = None" and nl: "\<not> maxCountSubscribes \<le> Len (router w)"
    and sa: "sendAndAwaitResponse
               ((log_event (Caller, Lock ActiveSubsMu) w)\<lparr>counter := counter w + 1\<rparr>)
               (subscriptionRequest (counter w + 1) subscribe s) env = (r, w3)"
  shows "Subscribe_WSMarket w (Some s) env =
      (case r of
         Blocks \<Rightarrow> (Blocks, w3)
       | Panics t \<Rightarrow> (Panics t, log_event (Caller, Unlock ActiveSubsMu) w3)
       | Returns (Some e) \<Rightarrow> (Returns (Inl e), log_event (Caller, Unlock ActiveSubsMu) w3)
       | Returns None \<Rightarrow>
           (Returns (Inr \<lparr>inner = s, once_w = False, err_w = None\<rparr>),
            log_event (Caller, Unlock ActiveSubsMu)
              (w3\<lparr>activeSubs := (activeSubs w3)
                      (sid s \<mapsto> \<lparr>inner = s, once_w = False, err_w = None\<rparr>),
                  router := Register (router w3) (handler s)\<rparr>)))"
  using na nl sa
  by (simp add: Subscribe_WSMarket_def Let_def createID_def Inc_def frame_log_event
      newSubscriptionRequest_def split: outcome.splits option.splits)

lemma Subscribe_refused:
  assumes "activeSubs w (sid s) \<noteq> None \<or> maxCountSubscribes \<le> Len (router w)"
  shows "Subscribe_WSMarket w (Some s) env =
       (Returns (Inl
          (if activeSubs w (sid s) \<noteq> None
           then WithMessage (errFactory ''Subscribe'' None (Some ErrDuplicateSubscription))
                  (Text (''already subscribed: '' @ sid s))
           else WithMessage (errFactory ''Subscribe'' None (Some ErrMaxCountSubscribes))
                  (Text ''subscription limit exceeded (max allowed: 30)''))),
        w\<lparr>trace := trace w @ [(Caller, Lock ActiveSubsMu), (Caller, Unlock ActiveSubsMu)]\<rparr>)"
  using assms by (auto simp: Subscribe_WSMarket_def log_event_def Let_def)

lemma Subscribe_effect:
  "handlers (router (snd (Subscribe_WSMarket w (Some s) env))) =
     (if fst (Subscribe_WSMarket w (Some s) env)
           = Returns (Inr \<lparr>inner = s, once_w = False, err_w = None\<rparr>)
      then (handlers (router w))(addr (handler s) \<mapsto> handler s)
      else handlers (router w))
   \<and> activeSubs (snd (Subscribe_WSMarket w (Some s) env)) =
     (if fst (Subscribe_WSMarket w (Some s) env)
           = Returns (Inr \<lparr>inner = s, once_w = False, err_w = None\<rparr>)
      then (activeSubs w)(sid s \<mapsto> \<lparr>inner = s, once_w = False, err_w = None\<rparr>)
      else activeSubs w)
   \<and> (fst (Subscribe_WSMarket w (Some s) env)
           = Returns (Inr \<lparr>inner = s, once_w = False, err_w = None\<rparr>)
        \<longrightarrow> activeSubs w (sid s) = None \<and> Len (router w) < maxCountSubscribes
            \<and> (\<exists>m. first_reply (counter w + 1) (inbound env) = Some m \<and> fst (matches s m)))"
proof (cases "activeSubs w (sid s) \<noteq> None \<or> maxCountSubscribes \<le> Len (router w)")
  case True
  from Subscribe_refused [OF True, of env] show ?thesis
    by simp
next
  case False
  then have na: "activeSubs w (sid s) = None" and nl: "\<not> maxCountSubscribes \<le> Len (router w)"
    by simp_all
  let ?w2 = "(log_event (Caller, Lock ActiveSubsMu) w)\<lparr>counter := counter w + 1\<rparr>"
  let ?req = "subscriptionRequest (counter w + 1) subscribe s"
  obtain r w3 where sa: "sendAndAwaitResponse ?w2 ?req env = (r, w3)"
    by (cases "sendAndAwaitResponse ?w2 ?req env")
  from sendAndAwaitResponse_frame [of ?w2 ?req env] sa
  have fr: "handlers (router w3) = handlers (router w)" "activeSubs w3 = activeSubs w"
    by (simp_all add: frame_log_event)
  note un = Subscribe_unfolded [OF na nl sa]
  show ?thesis
  proof (cases r)
    case (Returns eo)
    show ?thesis
    proof (cases eo)
      case None
      with Returns sa have "fst (sendAndAwaitResponse ?w2 ?req env) = Returns None" by simp
      from sendAndAwaitResponse_success [OF this]
      have "\<exists>m. first_reply (counter w + 1) (inbound env) = Some m \<and> fst (matches s m)"
        by simp
      with un Returns None fr na nl show ?thesis
        by (simp add: frame_log_event Register_def)
    next
      case (Some e)
      with un Returns fr show ?thesis by (simp add: frame_log_event)
    qed
  next
    case (Panics t)
    with un fr show ?thesis by (simp add: frame_log_event)
  next
    case Blocks
    with un fr show ?thesis by simp
  qed
qed

lemma Len_full_session: "Len (router full_session) = 30"
proof -
  have "dom (\<lambda>a. if a < 30 then Some (handler (stream_sub a :: string subscriptionSpec)) else None)
      = {..<30::nat}"
    by (auto split: if_splits)
  then show ?thesis
    by (simp add: Len_def full_session_def)
qed

lemma active_full_session: "activeSubs full_session (sid (stream_sub 0)) \<noteq> None"
  by (simp add: full_session_def stream_sub_def stream_name_def)

lemma inactive_full_session: "activeSubs full_session (sid depth_sub) = None"
  by (simp add: full_session_def depth_sub_def depth_stream_def stream_name_def)

lemma Subscribe_acknowledged:
  "fst (Subscribe_WSMarket connected_session (Some depth_sub) (env_with [ack_frame] None))
     = Returns (Inr \<lparr>inner = depth_sub, once_w = False, err_w = None\<rparr>)"
  by (simp add: subscribe_ack_defs)

lemma Subscribe_WSUser_refused:
  assumes "activeSubs_u u (sid_u t) \<noteq> None \<or> maxCountSubscribes_u \<le> Len (router_u u)"
  shows "Subscribe_WSUser u (Some t) =
       (Returns (Inl
          (if activeSubs_u u (sid_u t) \<noteq> None
           then WithMessage (errFactory_u ''Subscribe'' None (Some ErrDuplicateSubscription))
                  (Text (''already subscribed: '' @ sid_u t))
           else WithMessage (errFactory_u ''Subscribe'' None (Some ErrMaxCountSubscribes))
                  (Text ''subscription limit exceeded (max allowed: 6)''))),
        u\<lparr>trace_u := trace_u u @ [(Caller, Lock ActiveSubsMu), (Caller, Unlock ActiveSubsMu)]\<rparr>)"
  using assms by (auto simp: Subscribe_WSUser_def log_event_u_def Let_def)

lemma Subscribe_WSUser_registers:
  assumes "activeSubs_u u (sid_u t) = None" and "Len (router_u u) < maxCountSubscribes_u"
  shows "Subscribe_WSUser u (Some t) =
       (Returns (Inr \<lparr>inner_u = t, once_u = False\<rparr>),
        u\<lparr>activeSubs_u := (activeSubs_u u)(sid_u t \<mapsto> \<lparr>inner_u = t, once_u = False\<rparr>),
          router_u := Register (router_u u) (handler_u t),
          trace_u := trace_u u @ [(Caller, Lock ActiveSubsMu), (Caller, Unlock ActiveSubsMu)]\<rparr>)"
  using assms by (simp add: Subscribe_WSUser_def log_event_u_def Let_def)

lemma Len_full_user_session: "Len (router_u full_user_session) = 6"
proof -
  have "dom (\<lambda>a. if a < 6 then Some (handler_u (user_sub a)) else None) = {..<6::nat}"
    by (auto split: if_splits)
  then show ?thesis
    by (simp add: Len_def full_user_session_def)
qed

lemma inactive_full_user_session: "activeSubs_u full_user_session (sid_u asset_sub) = None"
  by (simp add: full_user_session_def asset_sub_def stream_name_def)

lemma inactive_user_session:
  "activeSubs_u user_session (sid_u asset_sub) = None"
  "Len (router_u user_session) < maxCountSubscribes_u"
  by (simp_all add: user_session_def Len_def maxCountSubscribes_u_def)

text \<open>
  C5, as the code has it.  The limit of the spot market session is thirty.  When the router
  holds at least that many handlers, \<open>Subscribe\<close> fails and the session is the one before
  the call, apart from the lock and unlock of \<open>activeSubsMu\<close> in the trace: no id is taken
  from the counter, no request is written, and the active-subscription map and the router
  are the same.  The error is the limit error when the key of the spec is not active; the
  duplicate check comes first, so for a key that is active it is the duplicate error.

  Registration happens only after a successful acknowledgment: \<open>Subscribe\<close> adds the spec
  to the active-subscription map and its handler to the router exactly when it returns the
  handle, and it returns the handle only when the key was not active, the router was below
  the limit, and the first reply with the id of the request was accepted by the predicate
  of the spec.  In every other case the map and the handlers of the router are unchanged.

  The futures user session has the limit six and refuses in the same way at its limit.
  Below the limit, for a key that is not active, its \<open>Subscribe\<close> registers at once: this
  session sends no subscribe request and waits for no acknowledgment.
\<close>

theorem C5_limit_checked_before_request:
  "maxCountSubscribes = 30
   \<and> (maxCountSubscribes \<le> Len (router w) \<longrightarrow>
      Subscribe_WSMarket w (Some s) env =
        (Returns (Inl
           (if activeSubs w (sid s) \<noteq> None
            then WithMessage (errFactory ''Subscribe'' None (Some ErrDuplicateSubscription))
                   (Text (''already subscribed: '' @ sid s))
            else WithMessage (errFactory ''Subscribe'' None (Some ErrMaxCountSubscribes))
                   (Text ''subscription limit exceeded (max allowed: 30)''))),
         w\<lparr>trace := trace w @ [(Caller, Lock ActiveSubsMu), (Caller, Unlock ActiveSubsMu)]\<rparr>))
   \<and> handlers (router (snd (Subscribe_WSMarket w (Some s) env))) =
       (if fst (Subscribe_WSMarket w (Some s) env)
             = Returns (Inr \<lparr>inner = s, once_w = False, err_w = None\<rparr>)
        then (handlers (router w))(addr (handler s) \<mapsto> handler s)
        else handlers (router w))
   \<and> activeSubs (snd (Subscribe_WSMarket w (Some s) env)) =
       (if fst (Subscribe_WSMarket w (Some s) env)
             = Returns (Inr \<lparr>inner = s, once_w = False, err_w = None\<rparr>)
        then (activeSubs w)(sid s \<mapsto> \<lparr>inner = s, once_w = False, err_w = None\<rparr>)
        else activeSubs w)
   \<and> (fst (Subscribe_WSMarket w (Some s) env)
         = Returns (Inr \<lparr>inner = s, once_w = False, err_w = None\<rparr>)
       \<longrightarrow> activeSubs w (sid s) = None \<and> Len (router w) < maxCountSubscribes
           \<and> (\<exists>m. first_reply (counter w + 1) (inbound env) = Some m \<and> fst (matches s m)))
   \<and> maxCountSubscribes_u = 6
   \<and> (maxCountSubscribes_u \<le> Len (router_u u) \<longrightarrow>
      Subscribe_WSUser u (Some t) =
        (Returns (Inl
           (if activeSubs_u u (sid_u t) \<noteq> None
            then WithMessage (errFactory_u ''Subscribe'' None (Some ErrDuplicateSubscription))
                   (Text (''already subscribed: '' @ sid_u t))
            else WithMessage (errFactory_u ''Subscribe'' None (Some ErrMaxCountSubscribes))
                   (Text ''subscription limit exceeded (max allowed: 6)''))),
         u\<lparr>trace_u := trace_u u
              @ [(Caller, Lock ActiveSubsMu), (Caller, Unlock ActiveSubsMu)]\<rparr>))
   \<and> (activeSubs_u u (sid_u t) = None \<and> Len (router_u u) < maxCountSubscribes_u \<longrightarrow>
      Subscribe_WSUser u (Some t) =
        (Returns (Inr \<lparr>inner_u = t, once_u = False\<rparr>),
         u\<lparr>activeSubs_u := (activeSubs_u u)(sid_u t \<mapsto> \<lparr>inner_u = t, once_u = False\<rparr>),
           router_u := Register (router_u u) (handler_u t),
           trace_u := trace_u u
              @ [(Caller, Lock ActiveSubsMu), (Caller, Unlock ActiveSubsMu)]\<rparr>))"
proof -
  have user_limit: "Subscribe_WSUser u (Some t) =
        (Returns (Inl
           (if activeSubs_u u (sid_u t) \<noteq> None
            then WithMessage (errFactory_u ''Subscribe'' None (Some ErrDuplicateSubscription))
                   (Text (''already subscribed: '' @ sid_u t))
            else WithMessage (errFactory_u ''Subscribe'' None (Some ErrMaxCountSubscribes))
                   (Text ''subscription limit exceeded (max allowed: 6)''))),
         u\<lparr>trace_u := trace_u u
              @ [(Caller, Lock ActiveSubsMu), (Caller, Unlock ActiveSubsMu)]\<rparr>)"
    if "maxCountSubscribes_u \<le> Len (router_u u)"
    using that by (intro Subscribe_WSUser_refused) simp
  have user_reg: "Subscribe_WSUser u (Some t) =
        (Returns (Inr \<lparr>inner_u = t, once_u = False\<rparr>),
         u\<lparr>activeSubs_u := (activeSubs_u u)(sid_u t \<mapsto> \<lparr>inner_u = t, once_u = False\<rparr>),
           router_u := Register (router_u u) (handler_u t),
           trace_u := trace_u u
              @ [(Caller, Lock ActiveSubsMu), (Caller, Unlock ActiveSubsMu)]\<rparr>)"
    if "activeSubs_u u (sid_u t) = None \<and> Len (router_u u) < maxCountSubscribes_u"
    using that by (intro Subscribe_WSUser_registers) simp_all
  have limit: "Subscribe_WSMarket w (Some s) env =
        (Returns (Inl
           (if activeSubs w (sid s) \<noteq> None
            then WithMessage (errFactory ''Subscribe'' None (Some ErrDuplicateSubscription))
                   (Text (''already subscribed: '' @ sid s))
            else WithMessage (errFactory ''Subscribe'' None (Some ErrMaxCountSubscribes))
                   (Text ''subscription limit exceeded (max allowed: 30)''))),
         w\<lparr>trace := trace w @ [(Caller, Lock ActiveSubsMu), (Caller, Unlock ActiveSubsMu)]\<rparr>)"
    if "maxCountSubscribes \<le> Len (router w)"
    using that by (intro Subscribe_refused) simp
  have spot: "(maxCountSubscribes \<le> Len (router w) \<longrightarrow>
      Subscribe_WSMarket w (Some s) env =
        (Returns (Inl
           (if activeSubs w (sid s) \<noteq> None
            then WithMessage (errFactory ''Subscribe'' None (Some ErrDuplicateSubscription))
                   (Text (''already subscribed: '' @ sid s))
            else WithMessage (errFactory ''Subscribe'' None (Some ErrMaxCountSubscribes))
                   (Text ''subscription limit exceeded (max allowed: 30)''))),
         w\<lparr>trace := trace w @ [(Caller, Lock ActiveSubsMu), (Caller, Unlock ActiveSubsMu)]\<rparr>))"
    using limit by blast
  have user: "(maxCountSubscribes_u \<le> Len (router_u u) \<longrightarrow>
      Subscribe_WSUser u (Some t) =
        (Returns (Inl
           (if activeSubs_u u (sid_u t) \<noteq> None
            then WithMessage (errFactory_u ''Subscribe'' None (Some ErrDuplicateSubscription))
                   (Text (''already subscribed: '' @ sid_u t))
            else WithMessage (errFactory_u ''Subscribe'' None (Some ErrMaxCountSubscribes))
                   (Text ''subscription limit exceeded (max allowed: 6)''))),
         u\<lparr>trace_u := trace_u u
              @ [(Caller, Lock ActiveSubsMu), (Caller, Unlock ActiveSubsMu)]\<rparr>))
   \<and> (activeSubs_u u (sid_u t) = None \<and> Len (router_u u) < maxCountSubscribes_u \<longrightarrow>
      Subscribe_WSUser u (Some t) =
        (Returns (Inr \<lparr>inner_u = t, once_u = False\<rparr>),
         u\<lparr>activeSubs_u := (activeSubs_u u)(sid_u t \<mapsto> \<lparr>inner_u = t, once_u = False\<rparr>),
           router_u := Register (router_u u) (handler_u t),
           trace_u := trace_u u
              @ [(Caller, Lock ActiveSubsMu), (Caller, Unlock ActiveSubsMu)]\<rparr>))"
    using user_limit user_reg by blast
  have limits: "maxCountSubscribes = 30" "maxCountSubscribes_u = 6"
    by (simp_all add: maxCountSubscribes_def maxCountSubscribes_u_def)
  from spot user limits Subscribe_effect [of w s env] show ?thesis
    by (intro conjI) blast+
qed

text \<open>
  A subscription for a new stream is refused on the session at the limit, and the same
  subscription is acknowledged and registered on the session that has just connected.
\<close>

theorem C5_limit_checked_before_request_witness:
  "maxCountSubscribes \<le> Len (router full_session)
   \<and> Subscribe_WSMarket full_session (Some depth_sub) (env_with [ack_frame] None) =
       (Returns (Inl (WithMessage (errFactory ''Subscribe'' None (Some ErrMaxCountSubscribes))
                        (Text ''subscription limit exceeded (max allowed: 30)''))),
        full_session\<lparr>trace := trace full_session
           @ [(Caller, Lock ActiveSubsMu), (Caller, Unlock ActiveSubsMu)]\<rparr>)
   \<and> fst (Subscribe_WSMarket connected_session (Some depth_sub) (env_with [ack_frame] None))
       = Returns (Inr \<lparr>inner = depth_sub, once_w = False, err_w = None\<rparr>)
   \<and> handlers (router (snd (Subscribe_WSMarket connected_session (Some depth_sub)
        (env_with [ack_frame] None))))
       = (handlers (router connected_session))(addr (handler depth_sub) \<mapsto> handler depth_sub)
   \<and> Len (router connected_session) < maxCountSubscribes
   \<and> maxCountSubscribes_u \<le> Len (router_u full_user_session)
   \<and> fst (Subscribe_WSUser full_user_session (Some asset_sub))
       = Returns (Inl (WithMessage
           (errFactory_u ''Subscribe'' None (Some ErrMaxCountSubscribes))
           (Text ''subscription limit exceeded (max allowed: 6)'')))
   \<and> activeSubs_u user_session (sid_u asset_sub) = None
   \<and> Len (router_u user_session) < maxCountSubscribes_u
   \<and> fst (Subscribe_WSUser user_session (Some asset_sub))
       = Returns (Inr \<lparr>inner_u = asset_sub, once_u = False\<rparr>)"
proof -
  have ufull: "maxCountSubscribes_u \<le> Len (router_u full_user_session)"
    by (simp add: Len_full_user_session maxCountSubscribes_u_def)
  from C5_limit_checked_before_request
      [of full_session depth_sub "env_with [ack_frame] None" full_user_session asset_sub]
    ufull inactive_full_user_session
  have urefused: "fst (Subscribe_WSUser full_user_session (Some asset_sub))
       = Returns (Inl (WithMessage
           (errFactory_u ''Subscribe'' None (Some ErrMaxCountSubscribes))
           (Text ''subscription limit exceeded (max allowed: 6)'')))"
    by simp
  from C5_limit_checked_before_request
      [of full_session depth_sub "env_with [ack_frame] None" user_session asset_sub]
    inactive_user_session
  have uregistered: "fst (Subscribe_WSUser user_session (Some asset_sub))
       = Returns (Inr \<lparr>inner_u = asset_sub, once_u = False\<rparr>)"
    by simp
  have full: "maxCountSubscribes \<le> Len (router full_session)"
    by (simp add: Len_full_session maxCountSubscribes_def)
  from C5_limit_checked_before_request
      [of full_session depth_sub "env_with [ack_frame] None"] full inactive_full_session
  have refused: "Subscribe_WSMarket full_session (Some depth_sub) (env_with [ack_frame] None) =
       (Returns (Inl (WithMessage (errFactory ''Subscribe'' None (Some ErrMaxCountSubscribes))
                        (Text ''subscription limit exceeded (max allowed: 30)''))),
        full_session\<lparr>trace := trace full_session
           @ [(Caller, Lock ActiveSubsMu), (Caller, Unlock ActiveSubsMu)]\<rparr>)"
    by simp
  from C5_limit_checked_before_request
      [of connected_session depth_sub "env_with [ack_frame] None"] Subscribe_acknowledged
  have registered: "handlers (router (snd (Subscribe_WSMarket connected_session (Some depth_sub)
        (env_with [ack_frame] None))))
       = (handlers (router connected_session))(addr (handler depth_sub) \<mapsto> handler depth_sub)"
      "Len (router connected_session) < maxCountSubscribes"
    by simp_all
  from full refused Subscribe_acknowledged registered ufull urefused inactive_user_session
    uregistered
  show ?thesis
    by simp
qed

text \<open>
  The claim as written, that at the limit \<open>Subscribe\<close> fails with the limit error, fails
  for a spec whose key is already active: on the session with thirty active subscriptions a
  second \<open>Subscribe\<close> for the first of them fails with the duplicate error.
\<close>

theorem C5_duplicate_checked_first_counterexample:
  "maxCountSubscribes \<le> Len (router full_session)
   \<and> fst (Subscribe_WSMarket full_session (Some (stream_sub 0)) (env_with [] None))
       = Returns (Inl (WithMessage
           (errFactory ''Subscribe'' None (Some ErrDuplicateSubscription))
           (Text ''already subscribed: x'')))
   \<and> cause (WithMessage (errFactory ''Subscribe'' None (Some ErrDuplicateSubscription))
           (Text ''already subscribed: x''))
       = Some ErrDuplicateSubscription
   \<and> fst (Subscribe_WSMarket full_session (Some (stream_sub 0)) (env_with [] None))
       \<noteq> Returns (Inl (WithMessage
           (errFactory ''Subscribe'' None (Some ErrMaxCountSubscribes))
           (Text ''subscription limit exceeded (max allowed: 30)'')))"
proof -
  have full: "maxCountSubscribes \<le> Len (router full_session)"
    by (simp add: Len_full_session maxCountSubscribes_def)
  have sid0: "sid (stream_sub 0 :: string subscriptionSpec) = ''x''"
    by (simp add: stream_sub_def stream_name_def)
  from Subscribe_refused [of full_session "stream_sub 0" "env_with [] None"]
    active_full_session
  have dup: "fst (Subscribe_WSMarket full_session (Some (stream_sub 0)) (env_with [] None))
       = Returns (Inl (WithMessage
           (errFactory ''Subscribe'' None (Some ErrDuplicateSubscription))
           (Text ''already subscribed: x'')))"
    by (simp add: sid0)
  from full dup show ?thesis
    by (simp add: WithMessage_def errFactory_def WithCause_def WithKind_def WithOp_def
        WithSubsys_def NewSDKError_def)
qed




































end
